theory Spec2Isabelle
  imports Main "HOL-Library.Word" "HOL-Library.Sublist"
begin

unbundle bit_operations_syntax

section \<open>Python strings\<close>

text \<open>
  A Python \<open>str\<close> is a sequence of Unicode code points, so it is modelled as a list of
  natural numbers. ASCII literals are written through \<open>S\<close>; the Japanese user-facing
  messages of \<open>image_service.py\<close> are given by their code points.
\<close>

type_synonym pystr = "nat list"

definition S :: "string \<Rightarrow> pystr" where
  "S cs = map of_char cs"

text \<open>
  The Unicode character database, the image codec (Pillow), the random source and the
  operating system are outside the repository. What the code reads from them is collected
  in one record; the ASCII behaviour of the string methods is written out below and only
  the non-ASCII part is looked up here.
  \<^item> \<open>u_isspace c\<close>: \<open>str.isspace\<close> of a non-ASCII code point;
  \<^item> \<open>u_lower pre c post\<close>: the lower-casing of a non-ASCII code point \<open>c\<close> between the
    code points before it (reversed) and after it
    (the context matters for the final sigma only);
  \<^item> \<open>u_nfkd c\<close>: the NFKD decomposition of a non-ASCII code point;
  \<^item> \<open>pil_open\<close>, \<open>pil_verify\<close>: \<open>Image.open\<close> and \<open>Image.verify\<close> on the bytes of a
    stream (\<open>None\<close> and \<open>False\<close> stand for a raised exception);
  \<^item> \<open>pil_extensions\<close>: the file extensions registered with Pillow (keys of
    \<open>Image.EXTENSION\<close>);
  \<^item> \<open>pil_fit\<close>: the aspect-preserving size computed by \<open>Image.thumbnail\<close>
    (floating point inside Pillow; \<open>None\<close> stands for a raised exception);
  \<^item> \<open>uuid4\<close>: the 128 random bits drawn by \<open>uuid.uuid4()\<close>;
  \<^item> \<open>mkdir_ok\<close>, \<open>write_ok\<close>, \<open>remove_ok\<close>: whether the operating system lets the
    operation on this path succeed; \<open>residue\<close>: what a failed write leaves at the path.
\<close>

datatype pixels = Lazy "8 word list" | Converted string pixels | Resampled int int pixels

record image =
  width :: int
  height :: int
  mode :: string
  pix :: pixels

record env =
  u_isspace :: "nat \<Rightarrow> bool"
  u_lower :: "pystr \<Rightarrow> nat \<Rightarrow> pystr \<Rightarrow> pystr"
  u_nfkd :: "nat \<Rightarrow> pystr"
  pil_open :: "8 word list \<Rightarrow> image option"
  pil_verify :: "8 word list \<Rightarrow> bool"
  pil_extensions :: "pystr list"
  pil_fit :: "int \<times> int \<Rightarrow> int \<times> int \<Rightarrow> (int \<times> int) option"
  uuid4 :: "128 word"
  mkdir_ok :: "pystr \<Rightarrow> bool"
  write_ok :: "pystr \<Rightarrow> image \<Rightarrow> bool"
  residue :: "pystr \<Rightarrow> image option"
  remove_ok :: "pystr \<Rightarrow> bool"

definition py_isspace :: "env \<Rightarrow> nat \<Rightarrow> bool" where
  "py_isspace e c =
     (if c < 128 then (9 \<le> c \<and> c \<le> 13) \<or> (28 \<le> c \<and> c \<le> 32) else u_isspace e c)"

definition py_strip :: "env \<Rightarrow> pystr \<Rightarrow> pystr" where
  "py_strip e s = rev (dropWhile (py_isspace e) (rev (dropWhile (py_isspace e) s)))"

definition ascii_lower :: "nat \<Rightarrow> nat" where
  "ascii_lower c = (if 65 \<le> c \<and> c \<le> 90 then c + 32 else c)"

definition ascii_letter :: "nat \<Rightarrow> bool" where
  "ascii_letter c \<longleftrightarrow> (65 \<le> c \<and> c \<le> 90) \<or> (97 \<le> c \<and> c \<le> 122)"

fun lower_from :: "env \<Rightarrow> pystr \<Rightarrow> pystr \<Rightarrow> pystr" where
  "lower_from e pre [] = []"
| "lower_from e pre (c # cs) =
     (if c < 128 then [ascii_lower c] else u_lower e pre c cs) @ lower_from e (c # pre) cs"

definition py_lower :: "env \<Rightarrow> pystr \<Rightarrow> pystr" where
  "py_lower e s = lower_from e [] s"

fun digits :: "nat \<Rightarrow> pystr" where
  "digits n = (if n < 10 then [48 + n] else digits (n div 10) @ [48 + n mod 10])"

declare digits.simps [simp del]

definition py_str_int :: "int \<Rightarrow> pystr" where
  "py_str_int i = (if i < 0 then 45 # digits (nat (- i)) else digits (nat i))"

section \<open>\<open>os.path\<close> (POSIX) and \<open>werkzeug.utils.secure_filename\<close>\<close>

definition path_join :: "pystr \<Rightarrow> pystr \<Rightarrow> pystr" where
  "path_join a b =
     (if b \<noteq> [] \<and> hd b = 47 then b
      else if a = [] \<or> last a = 47 then a @ b
      else a @ [47] @ b)"

text \<open>\<open>str.rfind\<close> of a single code point: the last index, or \<open>-1\<close>.\<close>

fun rfind_from :: "nat \<Rightarrow> pystr \<Rightarrow> int \<Rightarrow> int \<Rightarrow> int" where
  "rfind_from c [] i found = found"
| "rfind_from c (x # xs) i found = rfind_from c xs (i + 1) (if x = c then i else found)"

definition rfind :: "pystr \<Rightarrow> nat \<Rightarrow> int" where
  "rfind p c = rfind_from c p 0 (- 1)"

text \<open>
  \<open>genericpath._splitext\<close> with \<open>sep = '/'\<close>, no \<open>altsep\<close> and \<open>extsep = '.'\<close>: the
  extension starts at the last dot of the last path component, unless only dots come
  before it in that component.
\<close>

definition splitext :: "pystr \<Rightarrow> pystr \<times> pystr" where
  "splitext p =
     (let sepIndex = rfind p 47; dotIndex = rfind p 46 in
      if dotIndex > sepIndex \<and>
         list_ex (\<lambda>c. c \<noteq> 46) (take (nat (dotIndex - (sepIndex + 1))) (drop (nat (sepIndex + 1)) p))
      then (take (nat dotIndex) p, drop (nat dotIndex) p)
      else (p, []))"

text \<open>\<open>str.split()\<close> without argument: the maximal runs of non-whitespace.\<close>

fun split_acc :: "env \<Rightarrow> pystr \<Rightarrow> pystr \<Rightarrow> pystr list" where
  "split_acc e cur [] = (if cur = [] then [] else [rev cur])"
| "split_acc e cur (c # cs) =
     (if py_isspace e c
      then (if cur = [] then split_acc e [] cs else rev cur # split_acc e [] cs)
      else split_acc e (c # cur) cs)"

definition py_split :: "env \<Rightarrow> pystr \<Rightarrow> pystr list" where
  "py_split e s = split_acc e [] s"

fun py_join :: "pystr \<Rightarrow> pystr list \<Rightarrow> pystr" where
  "py_join sep [] = []"
| "py_join sep [w] = w"
| "py_join sep (w # ws) = w @ sep @ py_join sep ws"

text \<open>The character class \<open>[A-Za-z0-9_.-]\<close> kept by \<open>_filename_ascii_strip_re\<close>.\<close>

definition filename_char :: "nat \<Rightarrow> bool" where
  "filename_char c \<longleftrightarrow>
     (65 \<le> c \<and> c \<le> 90) \<or> (97 \<le> c \<and> c \<le> 122) \<or> (48 \<le> c \<and> c \<le> 57) \<or>
     c = 95 \<or> c = 46 \<or> c = 45"

text \<open>
  \<open>unicodedata.normalize("NFKD", s).encode("ascii", "ignore").decode("ascii")\<close>: every
  code point is decomposed and the non-ASCII code points are dropped. The canonical
  reordering of NFKD moves combining marks only, which are all non-ASCII.
\<close>

definition ascii_fold :: "env \<Rightarrow> pystr \<Rightarrow> pystr" where
  "ascii_fold e s = concat (map (\<lambda>c. if c < 128 then [c] else filter (\<lambda>d. d < 128) (u_nfkd e c)) s)"

definition strip_chars :: "(nat \<Rightarrow> bool) \<Rightarrow> pystr \<Rightarrow> pystr" where
  "strip_chars P s = rev (dropWhile P (rev (dropWhile P s)))"

text \<open>
  \<open>secure_filename\<close> on a POSIX system (\<open>os.sep = '/'\<close>, \<open>os.path.altsep = None\<close>,
  \<open>os.name \<noteq> 'nt'\<close>, so the device-name branch is not taken).
\<close>

definition secure_filename :: "env \<Rightarrow> pystr \<Rightarrow> pystr" where
  "secure_filename e filename =
     (let f1 = ascii_fold e filename;
          f2 = map (\<lambda>c. if c = 47 then 32 else c) f1;
          f3 = py_join [95] (py_split e f2);
          f4 = filter filename_char f3
      in strip_chars (\<lambda>c. c = 46 \<or> c = 95) f4)"

section \<open>The image service (\<open>image_service.py\<close>)\<close>

definition ALLOWED_EXTENSIONS :: "pystr list" where
  "ALLOWED_EXTENSIONS = [S ''png'', S ''jpg'', S ''jpeg'', S ''gif'', S ''webp'']"

definition DEFAULT_MAX_DIMENSIONS :: "int \<times> int" where
  "DEFAULT_MAX_DIMENSIONS = (4000, 4000)"

definition DEFAULT_THUMBNAIL_SIZE :: "int \<times> int" where
  "DEFAULT_THUMBNAIL_SIZE = (300, 300)"

text \<open>\<open>filename.rsplit(".", 1)[1]\<close> for a name that contains a dot: what follows the last dot.\<close>

definition rsplit_dot_last :: "pystr \<Rightarrow> pystr" where
  "rsplit_dot_last filename = rev (takeWhile (\<lambda>c. c \<noteq> 46) (rev filename))"

definition allowed_file :: "env \<Rightarrow> pystr \<Rightarrow> bool" where
  "allowed_file e filename =
     (if filename = [] \<or> 46 \<notin> set filename then False
      else py_lower e (rsplit_dot_last filename) \<in> set ALLOWED_EXTENSIONS)"

text \<open>
  The upload stream: its bytes, the cursor and whether it has been closed
  (\<open>seek\<close> on a closed stream raises). Pillow reads from the cursor on.
\<close>

record stream =
  content :: "8 word list"
  pos :: nat
  closed :: bool

definition seek :: "nat \<Rightarrow> stream \<Rightarrow> stream option" where
  "seek n st = (if closed st then None else Some (st\<lparr>pos := n\<rparr>))"

definition Image_open :: "env \<Rightarrow> stream \<Rightarrow> image option" where
  "Image_open e st = pil_open e (drop (pos st) (content st))"

text \<open>
  \<open>_verify_image\<close>: rewind, open, verify, rewind, open again. Every exception is caught by
  the one caller, so all of them are the value \<open>None\<close>.
\<close>

definition verify_image :: "env \<Rightarrow> stream \<Rightarrow> image option" where
  "verify_image e st =
     (case seek 0 st of None \<Rightarrow> None
      | Some st1 \<Rightarrow>
          (case Image_open e st1 of None \<Rightarrow> None
           | Some img \<Rightarrow>
               if \<not> pil_verify e (drop (pos st1) (content st1)) then None
               else (case seek 0 st1 of None \<Rightarrow> None
                     | Some st2 \<Rightarrow> Image_open e st2)))"

definition convert :: "string \<Rightarrow> image \<Rightarrow> image" where
  "convert m im = im\<lparr>mode := m, pix := Converted m (pix im)\<rparr>"

definition ensure_saveable_mode :: "image \<Rightarrow> image" where
  "ensure_saveable_mode im =
     (if mode im = ''RGBA'' \<or> mode im = ''P'' then convert ''RGB'' im else im)"

subsection \<open>The file system\<close>

text \<open>
  Directories and files are keyed by the path string as the code builds it (no
  normalisation of paths). A stored file holds the image that was written.
\<close>

record filesystem =
  dirs :: "pystr set"
  files :: "pystr \<rightharpoonup> image"

datatype exn = OSError | ValueError | TypeError

fun ancestors_acc :: "pystr \<Rightarrow> pystr \<Rightarrow> pystr list" where
  "ancestors_acc acc [] = []"
| "ancestors_acc acc (c # cs) =
     (if c = 47 \<and> acc \<noteq> [] \<and> hd acc \<noteq> 47 then [rev acc] else []) @ ancestors_acc (c # acc) cs"

fun mkdir_each :: "env \<Rightarrow> pystr list \<Rightarrow> filesystem \<Rightarrow> exn option \<times> filesystem" where
  "mkdir_each e [] fs = (None, fs)"
| "mkdir_each e (q # qs) fs =
     (if q \<in> dirs fs then mkdir_each e qs fs
      else if files fs q = None \<and> mkdir_ok e q
      then mkdir_each e qs (fs\<lparr>dirs := insert q (dirs fs)\<rparr>)
      else (Some OSError, fs))"

text \<open>
  \<open>os.makedirs(name, exist_ok=True)\<close>: the missing ancestors are created from the outermost
  on, then the directory itself; an existing directory is not an error, anything else that
  stops \<open>mkdir\<close> is raised, with the directories made so far left behind.
\<close>

definition os_makedirs :: "env \<Rightarrow> pystr \<Rightarrow> filesystem \<Rightarrow> exn option \<times> filesystem" where
  "os_makedirs e name fs = mkdir_each e (ancestors_acc [] name @ [name]) fs"

text \<open>
  \<open>Image.save(path)\<close>: the format is looked up from the lower-cased extension of the path
  and an unregistered extension raises \<open>ValueError\<close> before anything is written; then the
  file is written, or the write fails and leaves what the system leaves.
\<close>

definition Image_save :: "env \<Rightarrow> image \<Rightarrow> pystr \<Rightarrow> filesystem \<Rightarrow> exn option \<times> filesystem" where
  "Image_save e im path fs =
     (if py_lower e (snd (splitext path)) \<notin> set (pil_extensions e)
      then (Some ValueError, fs)
      else if write_ok e path im
      then (None, fs\<lparr>files := (files fs)(path \<mapsto> im)\<rparr>)
      else (Some OSError, fs\<lparr>files := (files fs)(path := residue e path)\<rparr>))"

definition save_image :: "env \<Rightarrow> image \<Rightarrow> pystr \<Rightarrow> filesystem \<Rightarrow> exn option \<times> filesystem" where
  "save_image e im filepath fs = Image_save e (ensure_saveable_mode im) filepath fs"

text \<open>
  \<open>Image.thumbnail(size)\<close>: nothing to do when the image already fits the box, otherwise
  the image is resampled to the size Pillow computes; the mode is kept.
\<close>

definition Image_thumbnail :: "env \<Rightarrow> int \<times> int \<Rightarrow> image \<Rightarrow> image option" where
  "Image_thumbnail e sz im =
     (if fst sz \<ge> width im \<and> snd sz \<ge> height im then Some im
      else (case pil_fit e (width im, height im) sz of
              None \<Rightarrow> None
            | Some (w, h) \<Rightarrow> Some (im\<lparr>width := w, height := h, pix := Resampled w h (pix im)\<rparr>)))"

definition create_thumbnail ::
  "env \<Rightarrow> image \<Rightarrow> pystr \<Rightarrow> pystr \<Rightarrow> int \<times> int \<Rightarrow> filesystem \<Rightarrow> exn option \<times> filesystem" where
  "create_thumbnail e im thumbnail_dir fname sz fs =
     (case os_makedirs e thumbnail_dir fs of
        (Some x, fs1) \<Rightarrow> (Some x, fs1)
      | (None, fs1) \<Rightarrow>
          (let thumbnail_path = path_join thumbnail_dir fname in
           case Image_thumbnail e sz im of
             None \<Rightarrow> (Some ValueError, fs1)
           | Some thumb \<Rightarrow>
               Image_save e
                 (if mode thumb = ''RGBA'' \<or> mode thumb = ''P'' then convert ''RGB'' thumb else thumb)
                 thumbnail_path fs1))"

subsection \<open>The user-facing messages\<close>

definition MSG_NO_FILE :: pystr where
  "MSG_NO_FILE = [0x753b, 0x50cf, 0x30d5, 0x30a1, 0x30a4, 0x30eb, 0x304c, 0x9078, 0x629e,
     0x3055, 0x308c, 0x3066, 0x3044, 0x307e, 0x305b, 0x3093]"

definition MSG_BAD_EXT :: pystr where
  "MSG_BAD_EXT = [0x753b, 0x50cf, 0x30d5, 0x30a1, 0x30a4, 0x30eb, 0xff08] @
     S ''png,jpg,jpeg,gif,webp'' @
     [0xff09, 0x3092, 0x30a2, 0x30c3, 0x30d7, 0x30ed, 0x30fc, 0x30c9, 0x3057, 0x3066, 0x304f,
      0x3060, 0x3055, 0x3044]"

definition MSG_BAD_MIME :: pystr where
  "MSG_BAD_MIME = [0x753b, 0x50cf, 0x30d5, 0x30a1, 0x30a4, 0x30eb, 0x3092, 0x30a2, 0x30c3,
     0x30d7, 0x30ed, 0x30fc, 0x30c9, 0x3057, 0x3066, 0x304f, 0x3060, 0x3055, 0x3044]"

definition MSG_INVALID :: pystr where
  "MSG_INVALID = [0x6709, 0x52b9, 0x306a, 0x753b, 0x50cf, 0x30d5, 0x30a1, 0x30a4, 0x30eb,
     0x3092, 0x30a2, 0x30c3, 0x30d7, 0x30ed, 0x30fc, 0x30c9, 0x3057, 0x3066, 0x304f, 0x3060,
     0x3055, 0x3044]"

text \<open>The f-string of line 106: the text, the two bounds joined by \<open>x\<close>, the closing text.\<close>

definition MSG_TOO_LARGE :: "int \<Rightarrow> int \<Rightarrow> pystr" where
  "MSG_TOO_LARGE max_w max_h =
     [0x753b, 0x50cf, 0x306e, 0x30b5, 0x30a4, 0x30ba, 0x304c, 0x5927, 0x304d, 0x3059, 0x304e,
      0x307e, 0x3059, 0xff08, 0x6700, 0x5927, 0x20] @
     py_str_int max_w @ [120] @ py_str_int max_h @ [0xff09, 0x3002]"

subsection \<open>\<open>process_uploaded_image\<close>\<close>

text \<open>
  The uploaded file as the code reads it: three attributes fetched with \<open>getattr\<close> (absent
  and \<open>None\<close> are the same to the code) and the stream.
\<close>

record file_storage =
  filename :: "pystr option"
  content_type :: "pystr option"
  mimetype :: "pystr option"
  stream :: stream

definition hexdigit :: "nat \<Rightarrow> nat" where
  "hexdigit d = (if d < 10 then 48 + d else 87 + d)"

text \<open>\<open>uuid.uuid4().hex\<close>: the 128 bits as 32 lower-case hexadecimal digits.\<close>

definition uuid_hex :: "128 word \<Rightarrow> pystr" where
  "uuid_hex w = map (\<lambda>i. hexdigit (unat (drop_bit (4 * (31 - i)) w AND 15))) [0..<32]"

text \<open>Lines 79 and 86 to 90: \<open>getattr(...) or ...\<close> takes the first truthy value.\<close>

definition filename_original :: "file_storage \<Rightarrow> pystr" where
  "filename_original f = (case filename f of None \<Rightarrow> [] | Some s \<Rightarrow> s)"

definition declared_mimetype :: "file_storage \<Rightarrow> pystr option" where
  "declared_mimetype f =
     (case content_type f of
        None \<Rightarrow> mimetype f
      | Some c \<Rightarrow> if c = [] then mimetype f else Some c)"

definition mimetype_ok :: "pystr option \<Rightarrow> bool" where
  "mimetype_ok m = (case m of None \<Rightarrow> False | Some s \<Rightarrow> s \<noteq> [] \<and> prefix (S ''image/'') s)"

definition generated_filename :: "env \<Rightarrow> pystr \<Rightarrow> pystr" where
  "generated_filename e original =
     (let safe_name = secure_filename e original;
          ext = snd (splitext safe_name)
      in uuid_hex (uuid4 e) @ ext)"

type_synonym outcome = "exn + (pystr option \<times> pystr option)"

text \<open>
  The result is what the call returns (\<open>Inr\<close> of the pair) or the exception that leaves it
  (\<open>Inl\<close>), together with the file system afterwards.
\<close>

definition process_uploaded_image ::
  "env \<Rightarrow> file_storage option \<Rightarrow> pystr \<Rightarrow> int \<times> int \<Rightarrow> int \<times> int \<Rightarrow> filesystem
     \<Rightarrow> outcome \<times> filesystem" where
  "process_uploaded_image e file_storage upload_base_dir max_dimensions thumbnail_size fs =
     (case file_storage of
        None \<Rightarrow> (Inr (None, Some MSG_NO_FILE), fs)
      | Some f \<Rightarrow>
          if py_strip e (filename_original f) = [] then (Inr (None, Some MSG_NO_FILE), fs)
          else if \<not> allowed_file e (filename_original f) then (Inr (None, Some MSG_BAD_EXT), fs)
          else if \<not> mimetype_ok (declared_mimetype f) then (Inr (None, Some MSG_BAD_MIME), fs)
          else
            (let fname = generated_filename e (filename_original f);
                 filepath = path_join upload_base_dir fname
             in case verify_image e (stream f) of
                  None \<Rightarrow> (Inr (None, Some MSG_INVALID), fs)
                | Some img \<Rightarrow>
                    if width img > fst max_dimensions \<or> height img > snd max_dimensions
                    then (Inr (None, Some (MSG_TOO_LARGE (fst max_dimensions) (snd max_dimensions))), fs)
                    else
                      (case os_makedirs e upload_base_dir fs of
                         (Some x, fs1) \<Rightarrow> (Inl x, fs1)
                       | (None, fs1) \<Rightarrow>
                           (case save_image e img filepath fs1 of
                              (Some x, fs2) \<Rightarrow> (Inr (None, Some MSG_INVALID), fs2)
                            | (None, fs2) \<Rightarrow>
                                (let thumbnail_dir = path_join upload_base_dir (S ''thumbs'') in
                                 case create_thumbnail e img thumbnail_dir fname thumbnail_size fs2 of
                                   (_, fs3) \<Rightarrow> (Inr (Some fname, None), fs3))))))"

text \<open>The three checks of lines 76 to 92 all pass: a file with a non-blank name, an allowed
  extension and a declared type that starts with \<open>image/\<close>.\<close>

definition passes_gate :: "env \<Rightarrow> file_storage \<Rightarrow> bool" where
  "passes_gate e f \<longleftrightarrow>
     py_strip e (filename_original f) \<noteq> [] \<and> allowed_file e (filename_original f) \<and>
     mimetype_ok (declared_mimetype f)"

section \<open>Deleting a post (\<open>delete\<close> in \<open>app.py\<close>)\<close>

text \<open>
  A row of \<open>posts\<close> as the route reads it (both columns may be \<open>NULL\<close>), the logged-in
  user, and the state the route works on: the table and the file system.
\<close>

record post_row =
  row_user_id :: "int option"
  row_filename :: "pystr option"

record user =
  is_authenticated :: bool
  uid :: int
  username :: pystr

record app_state =
  posts :: "int \<rightharpoonup> post_row"
  fsys :: filesystem

text \<open>Whether the \<open>SELECT\<close>, the \<open>DELETE\<close> or the \<open>commit\<close> raises.\<close>

record db_faults =
  select_fails :: bool
  delete_fails :: bool
  commit_fails :: bool

datatype response = Redirect pystr | Abort nat

definition path_exists :: "filesystem \<Rightarrow> pystr \<Rightarrow> bool" where
  "path_exists fs p \<longleftrightarrow> p \<in> dirs fs \<or> files fs p \<noteq> None"

text \<open>\<open>os.remove\<close>: removes a file; a directory, a missing file or a refusal of the system raises.\<close>

definition os_remove :: "env \<Rightarrow> pystr \<Rightarrow> filesystem \<Rightarrow> exn option \<times> filesystem" where
  "os_remove e p fs =
     (if files fs p \<noteq> None \<and> remove_ok e p
      then (None, fs\<lparr>files := (files fs)(p := None)\<rparr>)
      else (Some OSError, fs))"

text \<open>
  The loop of lines 420 to 428 over the two paths. The second component collects the paths
  whose failed removal was logged.
\<close>

fun remove_each :: "env \<Rightarrow> pystr list \<Rightarrow> filesystem \<Rightarrow> filesystem \<times> pystr list" where
  "remove_each e [] fs = (fs, [])"
| "remove_each e (path # rest) fs =
     (if path \<noteq> [] \<and> path_exists fs path
      then (case os_remove e path fs of
              (None, fs1) \<Rightarrow> remove_each e rest fs1
            | (Some x, fs1) \<Rightarrow> (case remove_each e rest fs1 of (fs2, logged) \<Rightarrow> (fs2, path # logged)))
      else remove_each e rest fs)"

definition upload_path :: "pystr \<Rightarrow> pystr" where
  "upload_path fname = path_join (path_join (S ''static'') (S ''uploads'')) fname"

definition thumbs_path :: "pystr \<Rightarrow> pystr" where
  "thumbs_path fname =
     path_join (path_join (path_join (S ''static'') (S ''uploads'')) (S ''thumbs'')) fname"

text \<open>
  The body of \<open>delete\<close>. \<open>abort(403)\<close> raises an \<open>HTTPException\<close> inside the \<open>try\<close>, which
  the \<open>except Exception\<close> of line 433 catches and turns into \<open>abort(500)\<close>; so do
  \<open>int(None)\<close>, \<open>os.path.join\<close> on \<open>None\<close> and a failing statement. A failing \<open>DELETE\<close> or
  \<open>commit\<close> leaves the row in the table, the files already removed.
\<close>

definition delete_view ::
  "env \<Rightarrow> db_faults \<Rightarrow> user \<Rightarrow> int \<Rightarrow> app_state \<Rightarrow> response \<times> app_state \<times> pystr list" where
  "delete_view e db current_user pid st =
     (if \<not> is_authenticated current_user then (Abort 401, st, [])
      else if select_fails db then (Abort 500, st, [])
      else (case posts st pid of
              None \<Rightarrow> (Redirect (S ''/''), st, [])
            | Some row \<Rightarrow>
                (case row_user_id row of
                   None \<Rightarrow> (Abort 500, st, [])
                 | Some owner_id \<Rightarrow>
                     if uid current_user \<noteq> owner_id \<and> username current_user \<noteq> S ''admin''
                     then (Abort 500, st, [])
                     else (case row_filename row of
                             None \<Rightarrow> (Abort 500, st, [])
                           | Some fname \<Rightarrow>
                               (case remove_each e [upload_path fname, thumbs_path fname] (fsys st) of
                                  (fs1, logged) \<Rightarrow>
                                    if delete_fails db \<or> commit_fails db
                                    then (Abort 500, st\<lparr>fsys := fs1\<rparr>, logged)
                                    else (Redirect (S ''/''),
                                          st\<lparr>posts := (posts st)(pid := None), fsys := fs1\<rparr>,
                                          logged))))))"

text \<open>\<open>@login_required\<close> with \<open>login_view = "login"\<close>: an anonymous request is redirected.\<close>

definition delete :: 
  "env \<Rightarrow> db_faults \<Rightarrow> user \<Rightarrow> int \<Rightarrow> app_state \<Rightarrow> response \<times> app_state \<times> pystr list" where
  "delete e db current_user pid st =
     (if \<not> is_authenticated current_user then (Redirect (S ''/login''), st, [])
      else delete_view e db current_user pid st)"

section \<open>Concrete inputs\<close>

text \<open>
  A small environment to run the model on: a decoder that reads width, height and mode from
  the first three bytes, a system on which everything succeeds, and variants of it on which
  one operation fails.
\<close>

definition sample_open :: "8 word list \<Rightarrow> image option" where
  "sample_open bs =
     (case bs of
        w # h # m # rest \<Rightarrow>
          Some \<lparr>width = int (unat w), height = int (unat h),
                mode = (if m = 0 then ''RGB'' else if m = 1 then ''RGBA'' else if m = 2 then ''P''
                        else ''LA''),
                pix = Lazy bs\<rparr>
      | _ \<Rightarrow> None)"

definition sample_env :: env where
  "sample_env =
     \<lparr>u_isspace = (\<lambda>c. False), u_lower = (\<lambda>pre c post. [c]), u_nfkd = (\<lambda>c. []),
      pil_open = sample_open, pil_verify = (\<lambda>bs. True),
      pil_extensions = [S ''.png'', S ''.jpg'', S ''.jpeg'', S ''.gif'', S ''.webp'', S ''.bmp''],
      pil_fit = (\<lambda>wh box. Some box), uuid4 = 0x0123456789abcdef0123456789abcdef,
      mkdir_ok = (\<lambda>p. True), write_ok = (\<lambda>p im. True), residue = (\<lambda>p. None),
      remove_ok = (\<lambda>p. True)\<rparr>"

definition empty_fs :: filesystem where
  "empty_fs = \<lparr>dirs = {}, files = Map.empty\<rparr>"

definition sample_upload :: "string \<Rightarrow> string \<Rightarrow> 8 word list \<Rightarrow> file_storage" where
  "sample_upload name ctype bytes =
     \<lparr>filename = Some (S name), content_type = Some (S ctype), mimetype = Some (S ctype),
      stream = \<lparr>content = bytes, pos = 0, closed = False\<rparr>\<rparr>"

text \<open>The same system when no directory can be created, when no file can be written, and
  when only the thumbnail directory cannot be created.\<close>

definition readonly_env :: env where
  "readonly_env = sample_env\<lparr>mkdir_ok := (\<lambda>p. False)\<rparr>"

definition disk_full_env :: env where
  "disk_full_env = sample_env\<lparr>write_ok := (\<lambda>p im. False)\<rparr>"

definition thumbs_unwritable_env :: env where
  "thumbs_unwritable_env = sample_env\<lparr>mkdir_ok := (\<lambda>p. p \<noteq> S ''static/uploads/thumbs'')\<rparr>"

section \<open>Properties of the upload pipeline\<close>

subsection \<open>The file system is touched at the named path only\<close>

lemma mkdir_each_files: "files (snd (mkdir_each e qs fs)) = files fs"
  by (induction qs arbitrary: fs) auto

lemma os_makedirs_files: "os_makedirs e p fs = (r, fs1) \<Longrightarrow> files fs1 = files fs"
  using mkdir_each_files [of e "ancestors_acc [] p @ [p]" fs] by (simp add: os_makedirs_def)

lemma Image_save_other: "Image_save e im p fs = (r, fs1) \<Longrightarrow> q \<noteq> p \<Longrightarrow> files fs1 q = files fs q"
  by (auto simp: Image_save_def split: if_splits)

lemma Image_save_ok: "Image_save e im p fs = (None, fs1) \<Longrightarrow> files fs1 p = Some im"
  by (auto simp: Image_save_def split: if_splits)

lemma Image_save_dirs: "Image_save e im p fs = (r, fs1) \<Longrightarrow> dirs fs1 = dirs fs"
  by (auto simp: Image_save_def split: if_splits)

lemma create_thumbnail_other:
  assumes "create_thumbnail e im d fname sz fs = (r, fs1)" and "q \<noteq> path_join d fname"
  shows "files fs1 q = files fs q"
proof (cases "os_makedirs e d fs")
  case (Pair x fs0)
  note mk = os_makedirs_files [OF Pair]
  show ?thesis
  proof (cases x)
    case (Some a)
    with assms Pair mk show ?thesis by (simp add: create_thumbnail_def)
  next
    case None
    show ?thesis
    proof (cases "Image_thumbnail e sz im")
      case None' : None
      with assms Pair None mk show ?thesis by (simp add: create_thumbnail_def)
    next
      case (Some t)
      with assms Pair None have
        "Image_save e (if mode t = ''RGBA'' \<or> mode t = ''P'' then convert ''RGB'' t else t)
           (path_join d fname) fs0 = (r, fs1)"
        by (simp add: create_thumbnail_def)
      from Image_save_other [OF this assms(2)] mk show ?thesis by simp
    qed
  qed
qed

lemma uuid_hex_length: "length (uuid_hex w) = 32"
  by (simp add: uuid_hex_def)

lemma hexdigit_not_sep: "hexdigit d \<noteq> 47"
  by (simp add: hexdigit_def)

lemma uuid_hex_hd: "hd (uuid_hex w) \<noteq> 47"
proof -
  have "uuid_hex w \<noteq> []" using uuid_hex_length [of w] by auto
  then have "hd (uuid_hex w) \<in> set (uuid_hex w)" by simp
  then show ?thesis by (auto simp: uuid_hex_def hexdigit_not_sep)
qed

lemma generated_filename_hd:
  "generated_filename e orig \<noteq> [] \<and> hd (generated_filename e orig) \<noteq> 47"
proof -
  have ne: "uuid_hex (uuid4 e) \<noteq> []" using uuid_hex_length [of "uuid4 e"] by auto
  then show ?thesis using uuid_hex_hd [of "uuid4 e"]
    by (simp add: generated_filename_def Let_def)
qed

lemma thumbs_path_differs:
  assumes "fname \<noteq> []" "hd fname \<noteq> 47"
  shows "path_join (path_join base (S ''thumbs'')) fname \<noteq> path_join base fname"
proof -
  have "length (path_join (path_join base (S ''thumbs'')) fname) = length (path_join base fname) + 7"
    using assms by (auto simp: path_join_def S_def)
  then show ?thesis by auto
qed

subsection \<open>What each stage returns\<close>

lemma msg_distinct:
  "distinct [MSG_NO_FILE, MSG_BAD_EXT, MSG_BAD_MIME, MSG_INVALID, MSG_TOO_LARGE a b]"
  by (simp add: MSG_NO_FILE_def MSG_BAD_EXT_def MSG_BAD_MIME_def MSG_INVALID_def MSG_TOO_LARGE_def)

lemma process_none:
  "process_uploaded_image e None base md ts fs = (Inr (None, Some MSG_NO_FILE), fs)"
  by (simp add: process_uploaded_image_def)

lemma process_blank:
  "py_strip e (filename_original f) = [] \<Longrightarrow>
   process_uploaded_image e (Some f) base md ts fs = (Inr (None, Some MSG_NO_FILE), fs)"
  by (simp add: process_uploaded_image_def)

lemma process_bad_ext:
  "py_strip e (filename_original f) \<noteq> [] \<Longrightarrow> \<not> allowed_file e (filename_original f) \<Longrightarrow>
   process_uploaded_image e (Some f) base md ts fs = (Inr (None, Some MSG_BAD_EXT), fs)"
  by (simp add: process_uploaded_image_def)

lemma process_bad_mime:
  "py_strip e (filename_original f) \<noteq> [] \<Longrightarrow> allowed_file e (filename_original f) \<Longrightarrow>
   \<not> mimetype_ok (declared_mimetype f) \<Longrightarrow>
   process_uploaded_image e (Some f) base md ts fs = (Inr (None, Some MSG_BAD_MIME), fs)"
  by (simp add: process_uploaded_image_def)

lemma process_invalid:
  "passes_gate e f \<Longrightarrow> verify_image e (stream f) = None \<Longrightarrow>
   process_uploaded_image e (Some f) base md ts fs = (Inr (None, Some MSG_INVALID), fs)"
  by (simp add: process_uploaded_image_def passes_gate_def Let_def)

lemma process_too_large:
  "passes_gate e f \<Longrightarrow> verify_image e (stream f) = Some img \<Longrightarrow>
   width img > fst md \<or> height img > snd md \<Longrightarrow>
   process_uploaded_image e (Some f) base md ts fs =
     (Inr (None, Some (MSG_TOO_LARGE (fst md) (snd md))), fs)"
  by (simp add: process_uploaded_image_def passes_gate_def Let_def)


lemma process_mkdir_fails:
  "passes_gate e f \<Longrightarrow> verify_image e (stream f) = Some img \<Longrightarrow>
   \<not> (width img > fst md \<or> height img > snd md) \<Longrightarrow>
   os_makedirs e base fs = (Some x, fs1) \<Longrightarrow>
   process_uploaded_image e (Some f) base md ts fs = (Inl x, fs1)"
  by (simp add: process_uploaded_image_def passes_gate_def Let_def)

lemma process_save_fails:
  "passes_gate e f \<Longrightarrow> verify_image e (stream f) = Some img \<Longrightarrow>
   \<not> (width img > fst md \<or> height img > snd md) \<Longrightarrow>
   os_makedirs e base fs = (None, fs1) \<Longrightarrow>
   save_image e img (path_join base (generated_filename e (filename_original f))) fs1 = (Some x, fs2) \<Longrightarrow>
   process_uploaded_image e (Some f) base md ts fs = (Inr (None, Some MSG_INVALID), fs2)"
  by (simp add: process_uploaded_image_def passes_gate_def Let_def)

lemma process_saved:
  "passes_gate e f \<Longrightarrow> verify_image e (stream f) = Some img \<Longrightarrow>
   \<not> (width img > fst md \<or> height img > snd md) \<Longrightarrow>
   os_makedirs e base fs = (None, fs1) \<Longrightarrow>
   save_image e img (path_join base (generated_filename e (filename_original f))) fs1 = (None, fs2) \<Longrightarrow>
   create_thumbnail e img (path_join base (S ''thumbs'')) (generated_filename e (filename_original f)) ts fs2 = (r, fs3) \<Longrightarrow>
   process_uploaded_image e (Some f) base md ts fs =
     (Inr (Some (generated_filename e (filename_original f)), None), fs3)"
  by (simp add: process_uploaded_image_def passes_gate_def Let_def)

lemma process_within_cases:
  assumes "passes_gate e f" "verify_image e (stream f) = Some img"
    "\<not> (width img > fst md \<or> height img > snd md)"
  shows "(\<exists>x. fst (process_uploaded_image e (Some f) base md ts fs) = Inl x) \<or>
   fst (process_uploaded_image e (Some f) base md ts fs) = Inr (None, Some MSG_INVALID) \<or>
   fst (process_uploaded_image e (Some f) base md ts fs) =
     Inr (Some (generated_filename e (filename_original f)), None)"
proof -
  obtain r1 fs1 where mk: "os_makedirs e base fs = (r1, fs1)" by (cases "os_makedirs e base fs")
  obtain r2 fs2 where sv:
    "save_image e img (path_join base (generated_filename e (filename_original f))) fs1 = (r2, fs2)"
    by (cases "save_image e img (path_join base (generated_filename e (filename_original f))) fs1")
  obtain r3 fs3 where th:
    "create_thumbnail e img (path_join base (S ''thumbs'')) (generated_filename e (filename_original f)) ts fs2 = (r3, fs3)"
    by (cases "create_thumbnail e img (path_join base (S ''thumbs'')) (generated_filename e (filename_original f)) ts fs2")
  show ?thesis
  proof (cases r1)
    case (Some x)
    with process_mkdir_fails [OF assms] mk show ?thesis by simp
  next
    case None
    note n1 = this
    show ?thesis
    proof (cases r2)
      case (Some x)
      with process_save_fails [OF assms] mk sv n1 show ?thesis by simp
    next
      case None
      with process_saved [OF assms] mk sv th n1 show ?thesis by simp
    qed
  qed
qed

lemma too_large_only_after_decode:
  assumes r: "fst (process_uploaded_image e (Some f) base md ts fs) = Inr (None, Some (MSG_TOO_LARGE a b))"
  shows "passes_gate e f \<and>
      (\<exists>im. verify_image e (stream f) = Some im \<and> (width im > fst md \<or> height im > snd md))"
proof -
  note d = msg_distinct [of a b]
  have g: "passes_gate e f"
  proof (rule ccontr)
    assume "\<not> passes_gate e f"
    then consider "py_strip e (filename_original f) = []"
      | "py_strip e (filename_original f) \<noteq> []" "\<not> allowed_file e (filename_original f)"
      | "py_strip e (filename_original f) \<noteq> []" "allowed_file e (filename_original f)"
        "\<not> mimetype_ok (declared_mimetype f)"
      unfolding passes_gate_def by blast
    then show False
    proof cases
      case 1 from process_blank [OF 1, of base md ts fs] r d show False by simp
    next
      case 2 from process_bad_ext [OF 2, of base md ts fs] r d show False by simp
    next
      case 3 from process_bad_mime [OF 3, of base md ts fs] r d show False by simp
    qed
  qed
  show ?thesis
  proof (cases "verify_image e (stream f)")
    case None
    from process_invalid [OF g None, of base md ts fs] r d show ?thesis by simp
  next
    case (Some im)
    show ?thesis
    proof (cases "width im > fst md \<or> height im > snd md")
      case True with g Some show ?thesis by simp
    next
      case False
      from process_within_cases [OF g Some False, of base ts fs] r d show ?thesis by auto
    qed
  qed
qed

section \<open>The claims\<close>

text \<open>
  C10: when an upload fails more than one check, the error is that of the earliest check in
  the order missing file, extension, declared content type, decode and verify, dimensions.
  An upload with a disallowed extension gets the extension error whatever its content type
  is, and the dimension error is returned only for an upload that passed the gate and
  decoded.
\<close>

theorem earliest_failing_check_decides:
  "fst (process_uploaded_image e None base md ts fs) = Inr (None, Some MSG_NO_FILE) \<and>
   (py_strip e (filename_original f) = [] \<longrightarrow>
      fst (process_uploaded_image e (Some f) base md ts fs) = Inr (None, Some MSG_NO_FILE)) \<and>
   (py_strip e (filename_original f) \<noteq> [] \<and> \<not> allowed_file e (filename_original f) \<longrightarrow>
      fst (process_uploaded_image e (Some f) base md ts fs) = Inr (None, Some MSG_BAD_EXT)) \<and>
   (py_strip e (filename_original f) \<noteq> [] \<and> allowed_file e (filename_original f) \<and>
    \<not> mimetype_ok (declared_mimetype f) \<longrightarrow>
      fst (process_uploaded_image e (Some f) base md ts fs) = Inr (None, Some MSG_BAD_MIME)) \<and>
   (passes_gate e f \<and> verify_image e (stream f) = None \<longrightarrow>
      fst (process_uploaded_image e (Some f) base md ts fs) = Inr (None, Some MSG_INVALID)) \<and>
   (passes_gate e f \<and> verify_image e (stream f) = Some img \<and>
    (width img > fst md \<or> height img > snd md) \<longrightarrow>
      fst (process_uploaded_image e (Some f) base md ts fs) =
        Inr (None, Some (MSG_TOO_LARGE (fst md) (snd md)))) \<and>
   (fst (process_uploaded_image e (Some f) base md ts fs) = Inr (None, Some (MSG_TOO_LARGE a b)) \<longrightarrow>
      passes_gate e f \<and>
      (\<exists>im. verify_image e (stream f) = Some im \<and> (width im > fst md \<or> height im > snd md)))"
proof (intro conjI impI)
  show "fst (process_uploaded_image e None base md ts fs) = Inr (None, Some MSG_NO_FILE)"
    by (simp add: process_none)
next
  assume "py_strip e (filename_original f) = []"
  then show "fst (process_uploaded_image e (Some f) base md ts fs) = Inr (None, Some MSG_NO_FILE)"
    by (simp add: process_blank)
next
  assume "py_strip e (filename_original f) \<noteq> [] \<and> \<not> allowed_file e (filename_original f)"
  then show "fst (process_uploaded_image e (Some f) base md ts fs) = Inr (None, Some MSG_BAD_EXT)"
    by (simp add: process_bad_ext)
next
  assume "py_strip e (filename_original f) \<noteq> [] \<and> allowed_file e (filename_original f) \<and>
    \<not> mimetype_ok (declared_mimetype f)"
  then show "fst (process_uploaded_image e (Some f) base md ts fs) = Inr (None, Some MSG_BAD_MIME)"
    by (simp add: process_bad_mime)
next
  assume "passes_gate e f \<and> verify_image e (stream f) = None"
  then show "fst (process_uploaded_image e (Some f) base md ts fs) = Inr (None, Some MSG_INVALID)"
    by (simp add: process_invalid)
next
  assume "passes_gate e f \<and> verify_image e (stream f) = Some img \<and>
    (width img > fst md \<or> height img > snd md)"
  then show "fst (process_uploaded_image e (Some f) base md ts fs) =
        Inr (None, Some (MSG_TOO_LARGE (fst md) (snd md)))"
    using process_too_large [of e f img md base ts fs] by simp
next
  assume r: "fst (process_uploaded_image e (Some f) base md ts fs) = Inr (None, Some (MSG_TOO_LARGE a b))"
  from too_large_only_after_decode [OF r] show "passes_gate e f" by simp
  from too_large_only_after_decode [OF r]
  show "\<exists>im. verify_image e (stream f) = Some im \<and> (width im > fst md \<or> height im > snd md)" by simp
qed

theorem earliest_failing_check_decides_witness:
  "fst (process_uploaded_image sample_env (Some (sample_upload ''notes.txt'' ''text/plain'' []))
          (S ''static/uploads'') DEFAULT_MAX_DIMENSIONS DEFAULT_THUMBNAIL_SIZE empty_fs)
     = Inr (None, Some MSG_BAD_EXT) \<and>
   \<not> mimetype_ok (declared_mimetype (sample_upload ''notes.txt'' ''text/plain'' [])) \<and>
   fst (process_uploaded_image sample_env (Some (sample_upload ''a.png'' ''image/png'' [10, 20, 0]))
          (S ''static/uploads'') (9, 20) DEFAULT_THUMBNAIL_SIZE empty_fs)
     = Inr (None, Some (MSG_TOO_LARGE 9 20)) \<and>
   fst (process_uploaded_image sample_env (Some (sample_upload ''a.png'' ''text/plain'' []))
          (S ''static/uploads'') (9, 20) DEFAULT_THUMBNAIL_SIZE empty_fs)
     = Inr (None, Some MSG_BAD_MIME) \<and>
   fst (process_uploaded_image sample_env (Some (sample_upload ''a.png'' ''image/png'' []))
          (S ''static/uploads'') (9, 20) DEFAULT_THUMBNAIL_SIZE empty_fs)
     = Inr (None, Some MSG_INVALID)"
proof -
  let ?txt = "sample_upload ''notes.txt'' ''text/plain'' []"
  let ?png = "sample_upload ''a.png'' ''image/png'' [10, 20, 0]"
  let ?lie = "sample_upload ''a.png'' ''text/plain'' []"
  let ?bad = "sample_upload ''a.png'' ''image/png'' []"
  have a1: "py_strip sample_env (filename_original ?txt) \<noteq> []" by code_simp
  have a2: "\<not> allowed_file sample_env (filename_original ?txt)" by code_simp
  have a3: "\<not> mimetype_ok (declared_mimetype ?txt)" by code_simp
  have b1: "passes_gate sample_env ?png" by code_simp
  have b2: "verify_image sample_env (stream ?png) =
     Some \<lparr>width = 10, height = 20, mode = ''RGB'', pix = Lazy [10, 20, 0]\<rparr>" by code_simp
  have c1: "py_strip sample_env (filename_original ?lie) \<noteq> []" by code_simp
  have c2: "allowed_file sample_env (filename_original ?lie)" by code_simp
  have c3: "\<not> mimetype_ok (declared_mimetype ?lie)" by code_simp
  have d1: "passes_gate sample_env ?bad" by code_simp
  have d2: "verify_image sample_env (stream ?bad) = None" by code_simp
  from earliest_failing_check_decides [of sample_env "S ''static/uploads''" DEFAULT_MAX_DIMENSIONS
      DEFAULT_THUMBNAIL_SIZE empty_fs ?txt] a1 a2
  have A: "fst (process_uploaded_image sample_env (Some ?txt)
          (S ''static/uploads'') DEFAULT_MAX_DIMENSIONS DEFAULT_THUMBNAIL_SIZE empty_fs)
     = Inr (None, Some MSG_BAD_EXT)" by blast
  from earliest_failing_check_decides [of sample_env "S ''static/uploads''" "(9, 20)"
      DEFAULT_THUMBNAIL_SIZE empty_fs ?png "\<lparr>width = 10, height = 20, mode = ''RGB'', pix = Lazy [10, 20, 0]\<rparr>"] b1 b2
  have B: "fst (process_uploaded_image sample_env (Some ?png)
          (S ''static/uploads'') (9, 20) DEFAULT_THUMBNAIL_SIZE empty_fs)
     = Inr (None, Some (MSG_TOO_LARGE 9 20))" by simp
  from earliest_failing_check_decides [of sample_env "S ''static/uploads''" "(9, 20)"
      DEFAULT_THUMBNAIL_SIZE empty_fs ?lie] c1 c2 c3
  have C: "fst (process_uploaded_image sample_env (Some ?lie)
          (S ''static/uploads'') (9, 20) DEFAULT_THUMBNAIL_SIZE empty_fs)
     = Inr (None, Some MSG_BAD_MIME)" by blast
  from earliest_failing_check_decides [of sample_env "S ''static/uploads''" "(9, 20)"
      DEFAULT_THUMBNAIL_SIZE empty_fs ?bad] d1 d2
  have D: "fst (process_uploaded_image sample_env (Some ?bad)
          (S ''static/uploads'') (9, 20) DEFAULT_THUMBNAIL_SIZE empty_fs)
     = Inr (None, Some MSG_INVALID)" by blast
  from A a3 B C D show ?thesis by blast
qed

lemma process_gate_rejected:
  "\<not> passes_gate e f \<Longrightarrow>
   process_uploaded_image e (Some f) base md ts fs =
     (Inr (None, Some (if py_strip e (filename_original f) = [] then MSG_NO_FILE
                       else if \<not> allowed_file e (filename_original f) then MSG_BAD_EXT
                       else MSG_BAD_MIME)), fs)"
proof (cases "py_strip e (filename_original f) = []")
  case True
  then show ?thesis by (simp add: process_blank)
next
  case False
  note ne = this
  assume ng: "\<not> passes_gate e f"
  show ?thesis
  proof (cases "allowed_file e (filename_original f)")
    case False
    with ne show ?thesis by (simp add: process_bad_ext)
  next
    case True
    with ne ng have "\<not> mimetype_ok (declared_mimetype f)" by (simp add: passes_gate_def)
    with ne True show ?thesis by (simp add: process_bad_mime)
  qed
qed

text \<open>
  C3: an upload that is rejected by the gate (no file, blank name, extension, declared
  content type), by decode and verify, or by the dimension guard leaves the file system as it
  was: no file is written and no directory is created.
\<close>

theorem rejected_upload_writes_nothing:
  assumes "fo = None \<or>
     (\<exists>f. fo = Some f \<and>
        (\<not> passes_gate e f \<or> verify_image e (stream f) = None \<or>
         (\<exists>img. verify_image e (stream f) = Some img \<and>
                (width img > fst md \<or> height img > snd md))))"
  shows "snd (process_uploaded_image e fo base md ts fs) = fs"
proof (cases fo)
  case None
  then show ?thesis by (simp add: process_none)
next
  case (Some f)
  show ?thesis
  proof (cases "passes_gate e f")
    case False
    with Some show ?thesis by (simp add: process_gate_rejected)
  next
    case True
    note g = this
    show ?thesis
    proof (cases "verify_image e (stream f)")
      case None
      with Some g show ?thesis by (simp add: process_invalid)
    next
      case v: (Some img)
      with assms Some g have "width img > fst md \<or> height img > snd md" by simp
      from process_too_large [OF g v this, of base ts fs] Some show ?thesis by simp
    qed
  qed
qed

theorem rejected_upload_writes_nothing_witness:
  "snd (process_uploaded_image sample_env (Some (sample_upload ''notes.txt'' ''image/png'' [10, 20, 0]))
          (S ''static/uploads'') DEFAULT_MAX_DIMENSIONS DEFAULT_THUMBNAIL_SIZE empty_fs) = empty_fs \<and>
   snd (process_uploaded_image sample_env (Some (sample_upload ''a.png'' ''image/png'' []))
          (S ''static/uploads'') DEFAULT_MAX_DIMENSIONS DEFAULT_THUMBNAIL_SIZE empty_fs) = empty_fs \<and>
   snd (process_uploaded_image sample_env (Some (sample_upload ''a.png'' ''image/png'' [10, 20, 0]))
          (S ''static/uploads'') (9, 20) DEFAULT_THUMBNAIL_SIZE empty_fs) = empty_fs \<and>
   dirs (snd (process_uploaded_image sample_env (Some (sample_upload ''a.png'' ''image/png'' [10, 20, 0]))
          (S ''static/uploads'') (10, 20) DEFAULT_THUMBNAIL_SIZE empty_fs)) \<noteq> dirs empty_fs"
proof -
  let ?txt = "sample_upload ''notes.txt'' ''image/png'' [10, 20, 0]"
  let ?png = "sample_upload ''a.png'' ''image/png'' [10, 20, 0]"
  let ?bad = "sample_upload ''a.png'' ''image/png'' []"
  have a: "\<not> passes_gate sample_env ?txt" by code_simp
  have b: "verify_image sample_env (stream ?bad) = None" by code_simp
  have c: "verify_image sample_env (stream ?png) =
     Some \<lparr>width = 10, height = 20, mode = ''RGB'', pix = Lazy [10, 20, 0]\<rparr>" by code_simp
  have A: "snd (process_uploaded_image sample_env (Some ?txt)
          (S ''static/uploads'') DEFAULT_MAX_DIMENSIONS DEFAULT_THUMBNAIL_SIZE empty_fs) = empty_fs"
    by (rule rejected_upload_writes_nothing) (use a in blast)
  have B: "snd (process_uploaded_image sample_env (Some ?bad)
          (S ''static/uploads'') DEFAULT_MAX_DIMENSIONS DEFAULT_THUMBNAIL_SIZE empty_fs) = empty_fs"
    by (rule rejected_upload_writes_nothing) (use b in blast)
  have C: "snd (process_uploaded_image sample_env (Some ?png)
          (S ''static/uploads'') (9, 20) DEFAULT_THUMBNAIL_SIZE empty_fs) = empty_fs"
    by (rule rejected_upload_writes_nothing) (use c in simp)
  have D: "dirs (snd (process_uploaded_image sample_env (Some ?png)
          (S ''static/uploads'') (10, 20) DEFAULT_THUMBNAIL_SIZE empty_fs)) \<noteq> dirs empty_fs"
    by code_simp
  from A B C D show ?thesis by blast
qed

text \<open>
  C5: for an upload that passed the gate and decoded, the size error is returned exactly
  when the width is greater than \<open>max_w\<close> or the height is greater than \<open>max_h\<close> (a dimension
  equal to its bound is accepted), and the message contains the configured bound, written
  \<open>max_w\<close>, \<open>x\<close>, \<open>max_h\<close>.
\<close>

theorem size_error_iff_over_bound:
  assumes "passes_gate e f" and "verify_image e (stream f) = Some img"
  shows "(fst (process_uploaded_image e (Some f) base (max_w, max_h) ts fs) =
            Inr (None, Some (MSG_TOO_LARGE max_w max_h))
          \<longleftrightarrow> width img > max_w \<or> height img > max_h) \<and>
         sublist (py_str_int max_w @ [120] @ py_str_int max_h) (MSG_TOO_LARGE max_w max_h)"
proof
  show "fst (process_uploaded_image e (Some f) base (max_w, max_h) ts fs) =
            Inr (None, Some (MSG_TOO_LARGE max_w max_h))
          \<longleftrightarrow> width img > max_w \<or> height img > max_h"
  proof
    assume "fst (process_uploaded_image e (Some f) base (max_w, max_h) ts fs) =
            Inr (None, Some (MSG_TOO_LARGE max_w max_h))"
    from too_large_only_after_decode [OF this] assms(2)
    show "width img > max_w \<or> height img > max_h" by simp
  next
    assume "width img > max_w \<or> height img > max_h"
    with process_too_large [OF assms, of "(max_w, max_h)" base ts fs]
    show "fst (process_uploaded_image e (Some f) base (max_w, max_h) ts fs) =
            Inr (None, Some (MSG_TOO_LARGE max_w max_h))" by simp
  qed
  show "sublist (py_str_int max_w @ [120] @ py_str_int max_h) (MSG_TOO_LARGE max_w max_h)"
    unfolding MSG_TOO_LARGE_def sublist_def by (metis append.assoc)
qed

theorem size_error_iff_over_bound_witness:
  "fst (process_uploaded_image sample_env (Some (sample_upload ''a.png'' ''image/png'' [10, 20, 0]))
          (S ''static/uploads'') (10, 20) DEFAULT_THUMBNAIL_SIZE empty_fs)
     \<noteq> Inr (None, Some (MSG_TOO_LARGE 10 20)) \<and>
   fst (process_uploaded_image sample_env (Some (sample_upload ''a.png'' ''image/png'' [10, 20, 0]))
          (S ''static/uploads'') (10, 19) DEFAULT_THUMBNAIL_SIZE empty_fs)
     = Inr (None, Some (MSG_TOO_LARGE 10 19)) \<and>
   sublist (S ''10x19'') (MSG_TOO_LARGE 10 19)"
proof -
  let ?png = "sample_upload ''a.png'' ''image/png'' [10, 20, 0]"
  let ?img = "\<lparr>width = 10, height = 20, mode = ''RGB'', pix = Lazy [10, 20, 0]\<rparr>"
  have g: "passes_gate sample_env ?png" by code_simp
  have v: "verify_image sample_env (stream ?png) = Some ?img" by code_simp
  have s: "py_str_int 10 @ [120] @ py_str_int 19 = S ''10x19''" by code_simp
  from size_error_iff_over_bound [OF g v, of "S ''static/uploads''" 10 20 DEFAULT_THUMBNAIL_SIZE empty_fs]
  have A: "fst (process_uploaded_image sample_env (Some ?png)
          (S ''static/uploads'') (10, 20) DEFAULT_THUMBNAIL_SIZE empty_fs)
     \<noteq> Inr (None, Some (MSG_TOO_LARGE 10 20))" by simp
  from size_error_iff_over_bound [OF g v, of "S ''static/uploads''" 10 19 DEFAULT_THUMBNAIL_SIZE empty_fs] s
  have B: "fst (process_uploaded_image sample_env (Some ?png)
          (S ''static/uploads'') (10, 19) DEFAULT_THUMBNAIL_SIZE empty_fs)
     = Inr (None, Some (MSG_TOO_LARGE 10 19)) \<and> sublist (S ''10x19'') (MSG_TOO_LARGE 10 19)" by simp
  from A B show ?thesis by blast
qed

lemma declared_mimetype_stream: "declared_mimetype (f\<lparr>stream := st\<rparr>) = declared_mimetype f"
  by (simp add: declared_mimetype_def split: option.splits)

lemma filename_original_stream: "filename_original (f\<lparr>stream := st\<rparr>) = filename_original f"
  by (simp add: filename_original_def)

lemma passes_gate_stream: "passes_gate e (f\<lparr>stream := st\<rparr>) = passes_gate e f"
  by (simp add: passes_gate_def filename_original_stream declared_mimetype_stream)

text \<open>
  C8 says that an upload whose declared content type does not start with \<open>image/\<close> is
  rejected with the content-type error. The gate checks the name first: an upload named
  \<open>notes.txt\<close> and declared \<open>text/plain\<close> gets the extension error instead.
\<close>

theorem bad_content_type_counterexample:
  "\<not> mimetype_ok (declared_mimetype (sample_upload ''notes.txt'' ''text/plain'' [10, 20, 0])) \<and>
   fst (process_uploaded_image sample_env (Some (sample_upload ''notes.txt'' ''text/plain'' [10, 20, 0]))
          (S ''static/uploads'') DEFAULT_MAX_DIMENSIONS DEFAULT_THUMBNAIL_SIZE empty_fs)
     = Inr (None, Some MSG_BAD_EXT) \<and>
   MSG_BAD_EXT \<noteq> MSG_BAD_MIME"
proof -
  let ?txt = "sample_upload ''notes.txt'' ''text/plain'' [10, 20, 0]"
  have a1: "py_strip sample_env (filename_original ?txt) \<noteq> []" by code_simp
  have a2: "\<not> allowed_file sample_env (filename_original ?txt)" by code_simp
  have a3: "\<not> mimetype_ok (declared_mimetype ?txt)" by code_simp
  from process_bad_ext [OF a1 a2] a3 msg_distinct [of 0 0] show ?thesis by simp
qed

text \<open>
  C8, as the code has it: an upload whose declared content type is missing or does not start
  with \<open>image/\<close> is always rejected and nothing is written, whatever its bytes are. The
  error is the missing-file error for a blank name, the extension error for a disallowed
  extension and the content-type error otherwise; replacing the stream changes neither the
  result nor the decision of the gate.
\<close>

theorem bad_content_type_rejected_whatever_the_bytes:
  assumes "\<not> mimetype_ok (declared_mimetype f)"
  shows "process_uploaded_image e (Some f) base md ts fs =
           (Inr (None, Some (if py_strip e (filename_original f) = [] then MSG_NO_FILE
                             else if \<not> allowed_file e (filename_original f) then MSG_BAD_EXT
                             else MSG_BAD_MIME)), fs) \<and>
         process_uploaded_image e (Some (f\<lparr>stream := st\<rparr>)) base md ts fs =
           process_uploaded_image e (Some f) base md ts fs \<and>
         passes_gate e (f\<lparr>stream := st\<rparr>) = passes_gate e f"
proof -
  from assms have ng: "\<not> passes_gate e f" by (simp add: passes_gate_def)
  then have ng': "\<not> passes_gate e (f\<lparr>stream := st\<rparr>)" by (simp add: passes_gate_stream)
  have "process_uploaded_image e (Some (f\<lparr>stream := st\<rparr>)) base md ts fs =
           process_uploaded_image e (Some f) base md ts fs"
    unfolding process_gate_rejected [OF ng] process_gate_rejected [OF ng']
    by (simp add: filename_original_stream)
  with process_gate_rejected [OF ng, of base md ts fs] show ?thesis
    by (simp add: passes_gate_stream)
qed

theorem bad_content_type_rejected_whatever_the_bytes_witness:
  "\<not> mimetype_ok (declared_mimetype (sample_upload ''a.png'' ''text/plain'' [10, 20, 0])) \<and>
   verify_image sample_env (stream (sample_upload ''a.png'' ''text/plain'' [10, 20, 0])) \<noteq> None \<and>
   process_uploaded_image sample_env (Some (sample_upload ''a.png'' ''text/plain'' [10, 20, 0]))
          (S ''static/uploads'') DEFAULT_MAX_DIMENSIONS DEFAULT_THUMBNAIL_SIZE empty_fs
     = (Inr (None, Some MSG_BAD_MIME), empty_fs)"
proof -
  let ?lie = "sample_upload ''a.png'' ''text/plain'' [10, 20, 0]"
  have c1: "py_strip sample_env (filename_original ?lie) \<noteq> []" by code_simp
  have c2: "allowed_file sample_env (filename_original ?lie)" by code_simp
  have c3: "\<not> mimetype_ok (declared_mimetype ?lie)" by code_simp
  have c4: "verify_image sample_env (stream ?lie) \<noteq> None" by code_simp
  from bad_content_type_rejected_whatever_the_bytes [OF c3, of sample_env "S ''static/uploads''"
      DEFAULT_MAX_DIMENSIONS DEFAULT_THUMBNAIL_SIZE empty_fs] c1 c2 c3 c4
  show ?thesis by simp
qed

text \<open>
  C2: once the full-size image has been written, a failure of the thumbnail step (whatever it
  raises) does not reach the caller: the call still returns the generated name and no error,
  and the full-size file is still at its path with the image that was saved.
\<close>

theorem thumbnail_failure_is_swallowed:
  assumes "passes_gate e f" and "verify_image e (stream f) = Some img"
    and "\<not> (width img > fst md \<or> height img > snd md)"
    and "os_makedirs e base fs = (None, fs1)"
    and "save_image e img (path_join base (generated_filename e (filename_original f))) fs1 = (None, fs2)"
    and "create_thumbnail e img (path_join base (S ''thumbs''))
           (generated_filename e (filename_original f)) ts fs2 = (Some x, fs3)"
  shows "process_uploaded_image e (Some f) base md ts fs =
           (Inr (Some (generated_filename e (filename_original f)), None), fs3) \<and>
         files fs3 (path_join base (generated_filename e (filename_original f))) =
           Some (ensure_saveable_mode img)"
proof -
  let ?fname = "generated_filename e (filename_original f)"
  have ne: "?fname \<noteq> []" "hd ?fname \<noteq> 47" using generated_filename_hd [of e "filename_original f"] by simp_all
  have diff: "path_join base ?fname \<noteq> path_join (path_join base (S ''thumbs'')) ?fname"
    using thumbs_path_differs [OF ne, of base] by simp
  from assms(5) have "files fs2 (path_join base ?fname) = Some (ensure_saveable_mode img)"
    unfolding save_image_def by (rule Image_save_ok)
  with create_thumbnail_other [OF assms(6) diff]
  have "files fs3 (path_join base ?fname) = Some (ensure_saveable_mode img)" by simp
  with process_saved [OF assms] show ?thesis by simp
qed

theorem thumbnail_failure_is_swallowed_witness:
  "fst (create_thumbnail thumbs_unwritable_env
          \<lparr>width = 10, height = 20, mode = ''RGBA'', pix = Lazy [10, 20, 1]\<rparr>
          (path_join (S ''static/uploads'') (S ''thumbs''))
          (S ''0123456789abcdef0123456789abcdef.png'') DEFAULT_THUMBNAIL_SIZE
          (snd (save_image thumbs_unwritable_env
                  \<lparr>width = 10, height = 20, mode = ''RGBA'', pix = Lazy [10, 20, 1]\<rparr>
                  (S ''static/uploads/0123456789abcdef0123456789abcdef.png'')
                  (snd (os_makedirs thumbs_unwritable_env (S ''static/uploads'') empty_fs)))))
     = Some OSError \<and>
   fst (process_uploaded_image thumbs_unwritable_env
          (Some (sample_upload ''a.png'' ''image/png'' [10, 20, 1]))
          (S ''static/uploads'') DEFAULT_MAX_DIMENSIONS DEFAULT_THUMBNAIL_SIZE empty_fs)
     = Inr (Some (S ''0123456789abcdef0123456789abcdef.png''), None) \<and>
   files (snd (process_uploaded_image thumbs_unwritable_env
          (Some (sample_upload ''a.png'' ''image/png'' [10, 20, 1]))
          (S ''static/uploads'') DEFAULT_MAX_DIMENSIONS DEFAULT_THUMBNAIL_SIZE empty_fs))
        (S ''static/uploads/0123456789abcdef0123456789abcdef.png'')
     = Some \<lparr>width = 10, height = 20, mode = ''RGB'', pix = Converted ''RGB'' (Lazy [10, 20, 1])\<rparr>"
proof -
  let ?e = thumbs_unwritable_env
  let ?f = "sample_upload ''a.png'' ''image/png'' [10, 20, 1]"
  let ?img = "\<lparr>width = 10, height = 20, mode = ''RGBA'', pix = Lazy [10, 20, 1]\<rparr>"
  let ?base = "S ''static/uploads''"
  let ?name = "S ''0123456789abcdef0123456789abcdef.png''"
  let ?path = "S ''static/uploads/0123456789abcdef0123456789abcdef.png''"
  let ?fs1 = "snd (os_makedirs ?e ?base empty_fs)"
  let ?fs2 = "snd (save_image ?e ?img ?path ?fs1)"
  let ?fs3 = "snd (create_thumbnail ?e ?img (path_join ?base (S ''thumbs'')) ?name DEFAULT_THUMBNAIL_SIZE ?fs2)"
  have g: "passes_gate ?e ?f" by code_simp
  have v: "verify_image ?e (stream ?f) = Some ?img" by code_simp
  have d: "\<not> (width ?img > fst DEFAULT_MAX_DIMENSIONS \<or> height ?img > snd DEFAULT_MAX_DIMENSIONS)"
    by code_simp
  have n: "generated_filename ?e (filename_original ?f) = ?name" by code_simp
  have p: "path_join ?base ?name = ?path" by code_simp
  have c: "ensure_saveable_mode ?img =
      \<lparr>width = 10, height = 20, mode = ''RGB'', pix = Converted ''RGB'' (Lazy [10, 20, 1])\<rparr>"
    by code_simp
  have "fst (os_makedirs ?e ?base empty_fs) = None" by code_simp
  then have m: "os_makedirs ?e ?base empty_fs = (None, ?fs1)" by (simp add: prod_eq_iff)
  have "fst (save_image ?e ?img ?path ?fs1) = None" by code_simp
  then have s: "save_image ?e ?img (path_join ?base (generated_filename ?e (filename_original ?f))) ?fs1
      = (None, ?fs2)" by (simp add: prod_eq_iff n p)
  have t0: "fst (create_thumbnail ?e ?img (path_join ?base (S ''thumbs'')) ?name DEFAULT_THUMBNAIL_SIZE ?fs2)
      = Some OSError" by code_simp
  then have t: "create_thumbnail ?e ?img (path_join ?base (S ''thumbs''))
      (generated_filename ?e (filename_original ?f)) DEFAULT_THUMBNAIL_SIZE ?fs2 = (Some OSError, ?fs3)"
    by (simp add: prod_eq_iff n)
  from thumbnail_failure_is_swallowed [OF g v d m s t] t0 show ?thesis
    by (simp add: n p c)
qed

text \<open>
  C4 says that a failed write of the full-size image has a message of its own, distinct from
  the one for an image that does not decode. Both returns (lines 102 and 113) carry the same
  text: an upload that does not decode and an upload whose write fails get the same answer.
\<close>

theorem store_failure_message_counterexample:
  "verify_image sample_env (stream (sample_upload ''a.png'' ''image/png'' [])) = None \<and>
   fst (process_uploaded_image sample_env (Some (sample_upload ''a.png'' ''image/png'' []))
          (S ''static/uploads'') DEFAULT_MAX_DIMENSIONS DEFAULT_THUMBNAIL_SIZE empty_fs)
     = Inr (None, Some MSG_INVALID) \<and>
   verify_image disk_full_env (stream (sample_upload ''a.png'' ''image/png'' [10, 20, 0])) =
     Some \<lparr>width = 10, height = 20, mode = ''RGB'', pix = Lazy [10, 20, 0]\<rparr> \<and>
   fst (save_image disk_full_env \<lparr>width = 10, height = 20, mode = ''RGB'', pix = Lazy [10, 20, 0]\<rparr>
          (S ''static/uploads/0123456789abcdef0123456789abcdef.png'')
          (snd (os_makedirs disk_full_env (S ''static/uploads'') empty_fs))) = Some OSError \<and>
   fst (process_uploaded_image disk_full_env (Some (sample_upload ''a.png'' ''image/png'' [10, 20, 0]))
          (S ''static/uploads'') DEFAULT_MAX_DIMENSIONS DEFAULT_THUMBNAIL_SIZE empty_fs)
     = Inr (None, Some MSG_INVALID)"
proof -
  let ?e = disk_full_env
  let ?f = "sample_upload ''a.png'' ''image/png'' [10, 20, 0]"
  let ?bad = "sample_upload ''a.png'' ''image/png'' []"
  let ?img = "\<lparr>width = 10, height = 20, mode = ''RGB'', pix = Lazy [10, 20, 0]\<rparr>"
  let ?base = "S ''static/uploads''"
  let ?path = "S ''static/uploads/0123456789abcdef0123456789abcdef.png''"
  let ?fs1 = "snd (os_makedirs ?e ?base empty_fs)"
  let ?fs2 = "snd (save_image ?e ?img ?path ?fs1)"
  have g: "passes_gate ?e ?f" by code_simp
  have v: "verify_image ?e (stream ?f) = Some ?img" by code_simp
  have d: "\<not> (width ?img > fst DEFAULT_MAX_DIMENSIONS \<or> height ?img > snd DEFAULT_MAX_DIMENSIONS)"
    by code_simp
  have p: "path_join ?base (generated_filename ?e (filename_original ?f)) = ?path" by code_simp
  have "fst (os_makedirs ?e ?base empty_fs) = None" by code_simp
  then have m: "os_makedirs ?e ?base empty_fs = (None, ?fs1)" by (simp add: prod_eq_iff)
  have s0: "fst (save_image ?e ?img ?path ?fs1) = Some OSError" by code_simp
  then have s: "save_image ?e ?img (path_join ?base (generated_filename ?e (filename_original ?f))) ?fs1
      = (Some OSError, ?fs2)" by (simp add: prod_eq_iff p)
  have g2: "passes_gate sample_env ?bad" by code_simp
  have v2: "verify_image sample_env (stream ?bad) = None" by code_simp
  from process_invalid [OF g2 v2] process_save_fails [OF g v d m s] v v2 s0
  show ?thesis by simp
qed

text \<open>
  C4, as the code has it: the missing-file, extension, content-type, decode and dimension
  rejections return five pairwise distinct messages, each stage its own; a failed write of the
  full-size image returns the message of the decode rejection.
\<close>

theorem failure_messages:
  "distinct [MSG_NO_FILE, MSG_BAD_EXT, MSG_BAD_MIME, MSG_INVALID, MSG_TOO_LARGE a b] \<and>
   (\<not> passes_gate e f \<longrightarrow>
      fst (process_uploaded_image e (Some f) base md ts fs) =
        Inr (None, Some (if py_strip e (filename_original f) = [] then MSG_NO_FILE
                         else if \<not> allowed_file e (filename_original f) then MSG_BAD_EXT
                         else MSG_BAD_MIME))) \<and>
   (passes_gate e f \<and> verify_image e (stream f) = None \<longrightarrow>
      fst (process_uploaded_image e (Some f) base md ts fs) = Inr (None, Some MSG_INVALID)) \<and>
   (passes_gate e f \<and> verify_image e (stream f) = Some img \<and>
    (width img > fst md \<or> height img > snd md) \<longrightarrow>
      fst (process_uploaded_image e (Some f) base md ts fs) =
        Inr (None, Some (MSG_TOO_LARGE (fst md) (snd md)))) \<and>
   (passes_gate e f \<and> verify_image e (stream f) = Some img \<and>
    \<not> (width img > fst md \<or> height img > snd md) \<and>
    os_makedirs e base fs = (None, fs1) \<and>
    save_image e img (path_join base (generated_filename e (filename_original f))) fs1 = (Some x, fs2) \<longrightarrow>
      fst (process_uploaded_image e (Some f) base md ts fs) = Inr (None, Some MSG_INVALID))"
proof (intro conjI impI)
  show "distinct [MSG_NO_FILE, MSG_BAD_EXT, MSG_BAD_MIME, MSG_INVALID, MSG_TOO_LARGE a b]"
    by (rule msg_distinct)
next
  assume "\<not> passes_gate e f"
  then show "fst (process_uploaded_image e (Some f) base md ts fs) =
        Inr (None, Some (if py_strip e (filename_original f) = [] then MSG_NO_FILE
                         else if \<not> allowed_file e (filename_original f) then MSG_BAD_EXT
                         else MSG_BAD_MIME))"
    by (simp add: process_gate_rejected)
next
  assume "passes_gate e f \<and> verify_image e (stream f) = None"
  then show "fst (process_uploaded_image e (Some f) base md ts fs) = Inr (None, Some MSG_INVALID)"
    by (simp add: process_invalid)
next
  assume "passes_gate e f \<and> verify_image e (stream f) = Some img \<and>
    (width img > fst md \<or> height img > snd md)"
  then show "fst (process_uploaded_image e (Some f) base md ts fs) =
        Inr (None, Some (MSG_TOO_LARGE (fst md) (snd md)))"
    using process_too_large [of e f img md base ts fs] by simp
next
  assume a: "passes_gate e f \<and> verify_image e (stream f) = Some img \<and>
    \<not> (width img > fst md \<or> height img > snd md) \<and>
    os_makedirs e base fs = (None, fs1) \<and>
    save_image e img (path_join base (generated_filename e (filename_original f))) fs1 = (Some x, fs2)"
  then show "fst (process_uploaded_image e (Some f) base md ts fs) = Inr (None, Some MSG_INVALID)"
    using process_save_fails [of e f img md base fs fs1 x fs2 ts] by simp
qed

theorem failure_messages_witness:
  "fst (process_uploaded_image disk_full_env (Some (sample_upload ''a.png'' ''image/png'' [10, 20, 0]))
          (S ''static/uploads'') DEFAULT_MAX_DIMENSIONS DEFAULT_THUMBNAIL_SIZE empty_fs)
     = Inr (None, Some MSG_INVALID) \<and>
   fst (process_uploaded_image sample_env (Some (sample_upload ''a.png'' ''image/png'' []))
          (S ''static/uploads'') DEFAULT_MAX_DIMENSIONS DEFAULT_THUMBNAIL_SIZE empty_fs)
     = Inr (None, Some MSG_INVALID) \<and>
   fst (process_uploaded_image sample_env (Some (sample_upload ''a.exe'' ''image/png'' []))
          (S ''static/uploads'') DEFAULT_MAX_DIMENSIONS DEFAULT_THUMBNAIL_SIZE empty_fs)
     = Inr (None, Some MSG_BAD_EXT) \<and>
   fst (process_uploaded_image sample_env (Some (sample_upload ''a.png'' ''image/png'' [10, 20, 0]))
          (S ''static/uploads'') (5, 5) DEFAULT_THUMBNAIL_SIZE empty_fs)
     = Inr (None, Some (MSG_TOO_LARGE 5 5))"
proof -
  let ?e = disk_full_env
  let ?f = "sample_upload ''a.png'' ''image/png'' [10, 20, 0]"
  let ?bad = "sample_upload ''a.png'' ''image/png'' []"
  let ?exe = "sample_upload ''a.exe'' ''image/png'' []"
  let ?img = "\<lparr>width = 10, height = 20, mode = ''RGB'', pix = Lazy [10, 20, 0]\<rparr>"
  let ?base = "S ''static/uploads''"
  let ?path = "S ''static/uploads/0123456789abcdef0123456789abcdef.png''"
  let ?fs1 = "snd (os_makedirs ?e ?base empty_fs)"
  let ?fs2 = "snd (save_image ?e ?img ?path ?fs1)"
  have g: "passes_gate ?e ?f" by code_simp
  have v: "verify_image ?e (stream ?f) = Some ?img" by code_simp
  have d: "\<not> (width ?img > fst DEFAULT_MAX_DIMENSIONS \<or> height ?img > snd DEFAULT_MAX_DIMENSIONS)"
    by code_simp
  have p: "path_join ?base (generated_filename ?e (filename_original ?f)) = ?path" by code_simp
  have "fst (os_makedirs ?e ?base empty_fs) = None" by code_simp
  then have m: "os_makedirs ?e ?base empty_fs = (None, ?fs1)" by (simp add: prod_eq_iff)
  have "fst (save_image ?e ?img ?path ?fs1) = Some OSError" by code_simp
  then have s: "save_image ?e ?img (path_join ?base (generated_filename ?e (filename_original ?f))) ?fs1
      = (Some OSError, ?fs2)" by (simp add: prod_eq_iff p)
  from failure_messages [of 0 0 ?e ?f ?base DEFAULT_MAX_DIMENSIONS DEFAULT_THUMBNAIL_SIZE empty_fs ?img ?fs1 OSError ?fs2]
    g v d m s
  have A: "fst (process_uploaded_image ?e (Some ?f) ?base DEFAULT_MAX_DIMENSIONS DEFAULT_THUMBNAIL_SIZE empty_fs)
     = Inr (None, Some MSG_INVALID)" by blast
  have g2: "passes_gate sample_env ?bad" by code_simp
  have v2: "verify_image sample_env (stream ?bad) = None" by code_simp
  from failure_messages [of 0 0 sample_env ?bad ?base DEFAULT_MAX_DIMENSIONS DEFAULT_THUMBNAIL_SIZE empty_fs] g2 v2
  have B: "fst (process_uploaded_image sample_env (Some ?bad) ?base DEFAULT_MAX_DIMENSIONS DEFAULT_THUMBNAIL_SIZE empty_fs)
     = Inr (None, Some MSG_INVALID)" by blast
  have g3: "\<not> passes_gate sample_env ?exe" by code_simp
  have g3a: "py_strip sample_env (filename_original ?exe) \<noteq> []" by code_simp
  have g3b: "\<not> allowed_file sample_env (filename_original ?exe)" by code_simp
  from failure_messages [of 0 0 sample_env ?exe ?base DEFAULT_MAX_DIMENSIONS DEFAULT_THUMBNAIL_SIZE empty_fs] g3 g3a g3b
  have C: "fst (process_uploaded_image sample_env (Some ?exe) ?base DEFAULT_MAX_DIMENSIONS DEFAULT_THUMBNAIL_SIZE empty_fs)
     = Inr (None, Some MSG_BAD_EXT)" by simp
  have g4: "passes_gate sample_env ?f" by code_simp
  have v4: "verify_image sample_env (stream ?f) = Some ?img" by code_simp
  from failure_messages [of 0 0 sample_env ?f ?base "(5, 5)" DEFAULT_THUMBNAIL_SIZE empty_fs ?img] g4 v4
  have D: "fst (process_uploaded_image sample_env (Some ?f) ?base (5, 5) DEFAULT_THUMBNAIL_SIZE empty_fs)
     = Inr (None, Some (MSG_TOO_LARGE 5 5))" by simp
  from A B C D show ?thesis by blast
qed

lemma process_raises_only_from_makedirs:
  assumes "fst (process_uploaded_image e fo base md ts fs) = Inl x"
  shows "fst (os_makedirs e base fs) = Some x"
proof (cases fo)
  case None
  with assms show ?thesis by (simp add: process_none)
next
  case (Some f)
  show ?thesis
  proof (cases "passes_gate e f")
    case False
    with assms Some show ?thesis by (simp add: process_gate_rejected)
  next
    case g: True
    show ?thesis
    proof (cases "verify_image e (stream f)")
      case None
      with assms Some g show ?thesis by (simp add: process_invalid)
    next
      case v: (Some img)
      show ?thesis
      proof (cases "width img > fst md \<or> height img > snd md")
        case True
        from process_too_large [OF g v True, of base ts fs] assms Some show ?thesis by simp
      next
        case d: False
        obtain r1 fs1 where mk: "os_makedirs e base fs = (r1, fs1)" by (cases "os_makedirs e base fs")
        show ?thesis
        proof (cases r1)
          case (Some y)
          with process_mkdir_fails [OF g v d, of base fs y fs1 ts] mk assms \<open>fo = Some f\<close>
          show ?thesis by simp
        next
          case n1: None
          obtain r2 fs2 where sv:
            "save_image e img (path_join base (generated_filename e (filename_original f))) fs1 = (r2, fs2)"
            by (cases "save_image e img (path_join base (generated_filename e (filename_original f))) fs1")
          obtain r3 fs3 where th:
            "create_thumbnail e img (path_join base (S ''thumbs'')) (generated_filename e (filename_original f)) ts fs2 = (r3, fs3)"
            by (cases "create_thumbnail e img (path_join base (S ''thumbs'')) (generated_filename e (filename_original f)) ts fs2")
          show ?thesis
          proof (cases r2)
            case (Some y)
            with process_save_fails [OF g v d, of base fs fs1 y fs2 ts] mk n1 sv assms \<open>fo = Some f\<close>
            show ?thesis by simp
          next
            case None
            with process_saved [OF g v d, of base fs fs1 fs2 ts r3 fs3] mk n1 sv th assms \<open>fo = Some f\<close>
            show ?thesis by simp
          qed
        qed
      qed
    qed
  qed
qed

lemma process_result_shape:
  "(\<exists>x. fst (process_uploaded_image e fo base md ts fs) = Inl x \<and> fst (os_makedirs e base fs) = Some x) \<or>
   (\<exists>msg. fst (process_uploaded_image e fo base md ts fs) = Inr (None, Some msg)) \<or>
   (\<exists>name. fst (process_uploaded_image e fo base md ts fs) = Inr (Some name, None))"
proof (cases fo)
  case None
  then show ?thesis by (simp add: process_none)
next
  case (Some f)
  show ?thesis
  proof (cases "passes_gate e f")
    case False
    with Some show ?thesis by (simp add: process_gate_rejected)
  next
    case g: True
    show ?thesis
    proof (cases "verify_image e (stream f)")
      case None
      with Some g show ?thesis by (simp add: process_invalid)
    next
      case v: (Some img)
      show ?thesis
      proof (cases "width img > fst md \<or> height img > snd md")
        case True
        from process_too_large [OF g v True, of base ts fs] Some show ?thesis by simp
      next
        case False
        from process_within_cases [OF g v False, of base ts fs]
          process_raises_only_from_makedirs [of e fo base md ts fs] Some
        show ?thesis by auto
      qed
    qed
  qed
qed

text \<open>
  C1: the call is meant to return a pair with exactly one component set and never to raise.
  \<open>os.makedirs(upload_base_dir)\<close> on line 108 is outside every \<open>try\<close>: when the upload
  directory cannot be created, a valid upload that passed every check leaves the call with
  \<open>OSError\<close> instead of a pair. (By the two lemmas before, this is the only way out by an
  exception, and every pair that is returned has exactly one component set.)
\<close>

theorem makedirs_failure_escapes:
  "passes_gate readonly_env (sample_upload ''a.png'' ''image/png'' [10, 20, 0]) \<and>
   verify_image readonly_env (stream (sample_upload ''a.png'' ''image/png'' [10, 20, 0])) =
     Some \<lparr>width = 10, height = 20, mode = ''RGB'', pix = Lazy [10, 20, 0]\<rparr> \<and>
   fst (process_uploaded_image readonly_env (Some (sample_upload ''a.png'' ''image/png'' [10, 20, 0]))
          (S ''static/uploads'') DEFAULT_MAX_DIMENSIONS DEFAULT_THUMBNAIL_SIZE empty_fs) = Inl OSError"
  by code_simp

text \<open>
  C6: an image in an alpha-channel mode is to be converted to RGB before it is saved. The
  test of \<open>_ensure_saveable_mode\<close> and of \<open>create_thumbnail\<close> names \<open>RGBA\<close> and \<open>P\<close> only:
  a grey-scale image with alpha (mode \<open>LA\<close>) is written as it is, full size and thumbnail.
\<close>

theorem la_mode_saved_unconverted:
  "verify_image sample_env (stream (sample_upload ''a.png'' ''image/png'' [10, 20, 3])) =
     Some \<lparr>width = 10, height = 20, mode = ''LA'', pix = Lazy [10, 20, 3]\<rparr> \<and>
   ensure_saveable_mode \<lparr>width = 10, height = 20, mode = ''LA'', pix = Lazy [10, 20, 3]\<rparr> =
     \<lparr>width = 10, height = 20, mode = ''LA'', pix = Lazy [10, 20, 3]\<rparr> \<and>
   files (snd (process_uploaded_image sample_env (Some (sample_upload ''a.png'' ''image/png'' [10, 20, 3]))
          (S ''static/uploads'') DEFAULT_MAX_DIMENSIONS DEFAULT_THUMBNAIL_SIZE empty_fs))
        (S ''static/uploads/0123456789abcdef0123456789abcdef.png'') =
     Some \<lparr>width = 10, height = 20, mode = ''LA'', pix = Lazy [10, 20, 3]\<rparr> \<and>
   files (snd (process_uploaded_image sample_env (Some (sample_upload ''a.png'' ''image/png'' [10, 20, 3]))
          (S ''static/uploads'') DEFAULT_MAX_DIMENSIONS DEFAULT_THUMBNAIL_SIZE empty_fs))
        (S ''static/uploads/thumbs/0123456789abcdef0123456789abcdef.png'') =
     Some \<lparr>width = 10, height = 20, mode = ''LA'', pix = Lazy [10, 20, 3]\<rparr>"
  by code_simp

lemma os_remove_files:
  "files (snd (os_remove e q fs)) p =
     (if p = q \<and> files fs q \<noteq> None \<and> remove_ok e q then None else files fs p)"
  by (simp add: os_remove_def)

lemma os_remove_dirs: "dirs (snd (os_remove e q fs)) = dirs fs"
  by (simp add: os_remove_def)

lemma remove_each_step:
  "fst (remove_each e (q # qs) fs) =
     fst (remove_each e qs (if q \<noteq> [] \<and> path_exists fs q then snd (os_remove e q fs) else fs))"
  by (simp split: prod.splits option.splits)

lemma remove_each_dirs: "dirs (fst (remove_each e ps fs)) = dirs fs"
proof (induction ps arbitrary: fs)
  case Nil
  show ?case by simp
next
  case (Cons q qs)
  show ?case unfolding remove_each_step
    by (simp add: Cons.IH os_remove_dirs)
qed

lemma remove_each_files:
  "files (fst (remove_each e ps fs)) p =
     (if p \<in> set ps \<and> p \<noteq> [] \<and> files fs p \<noteq> None \<and> remove_ok e p then None else files fs p)"
proof (induction ps arbitrary: fs)
  case Nil
  show ?case by simp
next
  case (Cons q qs)
  show ?case
  proof (cases "q \<noteq> [] \<and> path_exists fs q")
    case False
    then have "q = [] \<or> files fs q = None" by (auto simp: path_exists_def)
    with False show ?thesis unfolding remove_each_step by (auto simp: Cons.IH)
  next
    case True
    then show ?thesis unfolding remove_each_step
      by (simp add: Cons.IH os_remove_files) auto
  qed
qed

lemma upload_path_plain:
  "fname \<noteq> [] \<Longrightarrow> hd fname \<noteq> 47 \<Longrightarrow> upload_path fname = S ''static/uploads/'' @ fname"
  by (simp add: upload_path_def path_join_def S_def)

lemma thumbs_path_plain:
  "fname \<noteq> [] \<Longrightarrow> hd fname \<noteq> 47 \<Longrightarrow> thumbs_path fname = S ''static/uploads/thumbs/'' @ fname"
  by (simp add: thumbs_path_def path_join_def S_def)

text \<open>
  C9: when an authorised user deletes a post whose stored file name is \<open>fname\<close> (a name as
  the upload generates it: not empty, no leading slash), the route tries both
  \<open>static/uploads/fname\<close> and \<open>static/uploads/thumbs/fname\<close>. Each of the two is gone
  afterwards exactly when it was a file that the system let go; whether one of them is missing
  or cannot be removed has no effect on the other, nothing else in the file system changes, and
  the row is deleted and the user redirected in every case.
\<close>

theorem delete_removes_both_files_independently:
  assumes "is_authenticated cu" and "\<not> select_fails db" and "\<not> delete_fails db"
    and "\<not> commit_fails db" and "posts st pid = Some row" and "row_user_id row = Some owner"
    and "uid cu = owner \<or> username cu = S ''admin''"
    and "row_filename row = Some fname" and "fname \<noteq> []" and "hd fname \<noteq> 47"
  shows "fst (delete e db cu pid st) = Redirect (S ''/'') \<and>
         posts (fst (snd (delete e db cu pid st))) pid = None \<and>
         upload_path fname = S ''static/uploads/'' @ fname \<and>
         thumbs_path fname = S ''static/uploads/thumbs/'' @ fname \<and>
         (\<forall>p. files (fsys (fst (snd (delete e db cu pid st)))) p =
                (if (p = upload_path fname \<or> p = thumbs_path fname) \<and>
                    files (fsys st) p \<noteq> None \<and> remove_ok e p
                 then None else files (fsys st) p)) \<and>
         dirs (fsys (fst (snd (delete e db cu pid st)))) = dirs (fsys st)"
proof -
  obtain fs1 logged where re:
    "remove_each e [upload_path fname, thumbs_path fname] (fsys st) = (fs1, logged)"
    by (cases "remove_each e [upload_path fname, thumbs_path fname] (fsys st)")
  have d: "delete e db cu pid st =
      (Redirect (S ''/''), st\<lparr>posts := (posts st)(pid := None), fsys := fs1\<rparr>, logged)"
    using assms re by (auto simp: delete_def delete_view_def)
  have ne: "upload_path fname \<noteq> []" "thumbs_path fname \<noteq> []"
    using assms(9,10) by (simp_all add: upload_path_plain thumbs_path_plain S_def)
  have f: "files fs1 p =
      (if (p = upload_path fname \<or> p = thumbs_path fname) \<and> files (fsys st) p \<noteq> None \<and> remove_ok e p
       then None else files (fsys st) p)" for p
    using remove_each_files [of e "[upload_path fname, thumbs_path fname]" "fsys st" p] re ne
    by auto
  have dd: "dirs fs1 = dirs (fsys st)"
    using remove_each_dirs [of e "[upload_path fname, thumbs_path fname]" "fsys st"] re by simp
  show ?thesis
    using d f dd assms(9,10) by (simp add: upload_path_plain thumbs_path_plain)
qed


theorem delete_removes_both_files_independently_witness:
  "fst (delete (sample_env\<lparr>remove_ok := (\<lambda>p. p \<noteq> S ''static/uploads/ab.png'')\<rparr>)
          \<lparr>select_fails = False, delete_fails = False, commit_fails = False\<rparr>
          \<lparr>is_authenticated = True, uid = 1, username = S ''bob''\<rparr> 7
          \<lparr>posts = [7 \<mapsto> \<lparr>row_user_id = Some 1, row_filename = Some (S ''ab.png'')\<rparr>],
           fsys = \<lparr>dirs = {}, files =
             [S ''static/uploads/ab.png'' \<mapsto> \<lparr>width = 1, height = 1, mode = ''RGB'', pix = Lazy []\<rparr>,
              S ''static/uploads/thumbs/ab.png'' \<mapsto> \<lparr>width = 1, height = 1, mode = ''RGB'', pix = Lazy []\<rparr>]\<rparr>\<rparr>)
     = Redirect (S ''/'') \<and>
   posts (fst (snd (delete (sample_env\<lparr>remove_ok := (\<lambda>p. p \<noteq> S ''static/uploads/ab.png'')\<rparr>)
          \<lparr>select_fails = False, delete_fails = False, commit_fails = False\<rparr>
          \<lparr>is_authenticated = True, uid = 1, username = S ''bob''\<rparr> 7
          \<lparr>posts = [7 \<mapsto> \<lparr>row_user_id = Some 1, row_filename = Some (S ''ab.png'')\<rparr>],
           fsys = \<lparr>dirs = {}, files =
             [S ''static/uploads/ab.png'' \<mapsto> \<lparr>width = 1, height = 1, mode = ''RGB'', pix = Lazy []\<rparr>,
              S ''static/uploads/thumbs/ab.png'' \<mapsto> \<lparr>width = 1, height = 1, mode = ''RGB'', pix = Lazy []\<rparr>]\<rparr>\<rparr>))) 7
     = None \<and>
   files (fsys (fst (snd (delete (sample_env\<lparr>remove_ok := (\<lambda>p. p \<noteq> S ''static/uploads/ab.png'')\<rparr>)
          \<lparr>select_fails = False, delete_fails = False, commit_fails = False\<rparr>
          \<lparr>is_authenticated = True, uid = 1, username = S ''bob''\<rparr> 7
          \<lparr>posts = [7 \<mapsto> \<lparr>row_user_id = Some 1, row_filename = Some (S ''ab.png'')\<rparr>],
           fsys = \<lparr>dirs = {}, files =
             [S ''static/uploads/ab.png'' \<mapsto> \<lparr>width = 1, height = 1, mode = ''RGB'', pix = Lazy []\<rparr>,
              S ''static/uploads/thumbs/ab.png'' \<mapsto> \<lparr>width = 1, height = 1, mode = ''RGB'', pix = Lazy []\<rparr>]\<rparr>\<rparr>))))
      (S ''static/uploads/thumbs/ab.png'') = None \<and>
   files (fsys (fst (snd (delete (sample_env\<lparr>remove_ok := (\<lambda>p. p \<noteq> S ''static/uploads/ab.png'')\<rparr>)
          \<lparr>select_fails = False, delete_fails = False, commit_fails = False\<rparr>
          \<lparr>is_authenticated = True, uid = 1, username = S ''bob''\<rparr> 7
          \<lparr>posts = [7 \<mapsto> \<lparr>row_user_id = Some 1, row_filename = Some (S ''ab.png'')\<rparr>],
           fsys = \<lparr>dirs = {}, files =
             [S ''static/uploads/ab.png'' \<mapsto> \<lparr>width = 1, height = 1, mode = ''RGB'', pix = Lazy []\<rparr>,
              S ''static/uploads/thumbs/ab.png'' \<mapsto> \<lparr>width = 1, height = 1, mode = ''RGB'', pix = Lazy []\<rparr>]\<rparr>\<rparr>))))
      (S ''static/uploads/ab.png'') = Some \<lparr>width = 1, height = 1, mode = ''RGB'', pix = Lazy []\<rparr>"
proof -
  let ?e = "sample_env\<lparr>remove_ok := (\<lambda>p. p \<noteq> S ''static/uploads/ab.png'')\<rparr>"
  let ?db = "\<lparr>select_fails = False, delete_fails = False, commit_fails = False\<rparr>"
  let ?cu = "\<lparr>is_authenticated = True, uid = 1, username = S ''bob''\<rparr>"
  let ?row = "\<lparr>row_user_id = Some 1, row_filename = Some (S ''ab.png'')\<rparr>"
  let ?im = "\<lparr>width = 1, height = 1, mode = ''RGB'', pix = Lazy []\<rparr>"
  let ?st = "\<lparr>posts = [7 \<mapsto> ?row],
           fsys = \<lparr>dirs = {}, files =
             [S ''static/uploads/ab.png'' \<mapsto> ?im, S ''static/uploads/thumbs/ab.png'' \<mapsto> ?im]\<rparr>\<rparr>"
  have h1: "is_authenticated ?cu" by simp
  have h2: "\<not> select_fails ?db" "\<not> delete_fails ?db" "\<not> commit_fails ?db" by simp_all
  have h3: "posts ?st 7 = Some ?row" by simp
  have h4: "row_user_id ?row = Some 1" "row_filename ?row = Some (S ''ab.png'')" by simp_all
  have h5: "uid ?cu = 1 \<or> username ?cu = S ''admin''" by simp
  have h6: "S ''ab.png'' \<noteq> []" "hd (S ''ab.png'') \<noteq> 47" by (simp_all add: S_def)
  have r1: "remove_ok ?e (S ''static/uploads/thumbs/ab.png'')" by (simp add: S_def)
  have r2: "\<not> remove_ok ?e (S ''static/uploads/ab.png'')" by simp
  have k: "S ''static/uploads/'' @ S ''ab.png'' = S ''static/uploads/ab.png''"
    "S ''static/uploads/thumbs/'' @ S ''ab.png'' = S ''static/uploads/thumbs/ab.png''"
    by (simp_all add: S_def)
  have n: "S ''static/uploads/thumbs/ab.png'' \<noteq> S ''static/uploads/ab.png''" by (simp add: S_def)
  note t = delete_removes_both_files_independently [of ?cu ?db ?st 7 ?row 1 "S ''ab.png''" ?e,
      OF h1 h2 h3 h4(1) h5 h4(2) h6]
  from t have A: "fst (delete ?e ?db ?cu 7 ?st) = Redirect (S ''/'')" by blast
  from t have B: "posts (fst (snd (delete ?e ?db ?cu 7 ?st))) 7 = None" by blast
  from t have P: "upload_path (S ''ab.png'') = S ''static/uploads/ab.png''"
    "thumbs_path (S ''ab.png'') = S ''static/uploads/thumbs/ab.png''" using k by simp_all
  from t have F: "files (fsys (fst (snd (delete ?e ?db ?cu 7 ?st)))) p =
                (if (p = upload_path (S ''ab.png'') \<or> p = thumbs_path (S ''ab.png'')) \<and>
                    files (fsys ?st) p \<noteq> None \<and> remove_ok ?e p
                 then None else files (fsys ?st) p)" for p by blast
  have C: "files (fsys (fst (snd (delete ?e ?db ?cu 7 ?st)))) (S ''static/uploads/thumbs/ab.png'') = None"
    unfolding F P using r1 by simp
  have D: "files (fsys (fst (snd (delete ?e ?db ?cu 7 ?st)))) (S ''static/uploads/ab.png'') = Some ?im"
    unfolding F P using r2 n by simp
  from A B C D show ?thesis by blast
qed

subsection \<open>The extension of the generated name\<close>

lemma rfind_from_absent: "c \<notin> set xs \<Longrightarrow> rfind_from c xs i found = found"
  by (induction xs arbitrary: i found) auto

lemma rfind_from_append:
  "rfind_from c (a @ ys) i found = rfind_from c ys (i + int (length a)) (rfind_from c a i found)"
  by (induction a arbitrary: i found) (auto simp: algebra_simps)

lemma rfind_last_occurrence: "c \<notin> set x \<Longrightarrow> rfind (a @ c # x) c = int (length a)"
  by (simp add: rfind_def rfind_from_append rfind_from_absent)

lemma rfind_absent: "c \<notin> set p \<Longrightarrow> rfind p c = - 1"
  by (simp add: rfind_def rfind_from_absent)

lemma rfind_from_bounds:
  "found < i \<Longrightarrow> found \<le> rfind_from c xs i found \<and> rfind_from c xs i found < i + int (length xs)"
proof (induction xs arbitrary: i found)
  case Nil
  then show ?case by simp
next
  case (Cons x xs)
  let ?f = "if x = c then i else found"
  have "?f < i + 1" using Cons.prems by simp
  from Cons.IH [OF this] Cons.prems show ?case by (auto split: if_splits)
qed

lemma rfind_less: "rfind p c < int (length p)"
  using rfind_from_bounds [of "- 1" 0 c p] by (simp add: rfind_def)

lemma rfind_ge: "- 1 \<le> rfind p c"
  using rfind_from_bounds [of "- 1" 0 c p] by (simp add: rfind_def)

lemma rfind_append_absent: "c \<notin> set n \<Longrightarrow> rfind (d @ n) c = rfind d c"
  by (simp add: rfind_def rfind_from_append rfind_from_absent)

lemma rfind_dir: "47 \<notin> set n \<Longrightarrow> d = [] \<or> last d = 47 \<Longrightarrow> rfind (d @ n) 47 = int (length d) - 1"
proof (cases "d = []")
  case True
  assume "47 \<notin> set n"
  with True show ?thesis by (simp add: rfind_absent)
next
  case False
  assume a: "47 \<notin> set n" "d = [] \<or> last d = 47"
  with False obtain d' where d': "d = d' @ [47]" by (metis append_butlast_last_id)
  have "rfind (d' @ 47 # n) 47 = int (length d')" using a(1) by (rule rfind_last_occurrence)
  with d' show ?thesis by simp
qed

lemma splitext_no_dot: "46 \<notin> set p \<Longrightarrow> splitext p = (p, [])"
  using rfind_ge [of p 47] by (simp add: splitext_def Let_def rfind_absent)

lemma splitext_name:
  assumes "47 \<notin> set a" "47 \<notin> set x" "46 \<notin> set x"
  shows "splitext (a @ 46 # x) = (if list_ex (\<lambda>c. c \<noteq> 46) a then (a, 46 # x) else (a @ 46 # x, []))"
proof -
  have s: "rfind (a @ 46 # x) 47 = - 1" using assms by (simp add: rfind_absent)
  have d: "rfind (a @ 46 # x) 46 = int (length a)" using assms by (simp add: rfind_last_occurrence)
  show ?thesis by (simp add: splitext_def Let_def s d)
qed

lemma splitext_dir:
  assumes "47 \<notin> set n" "d = [] \<or> last d = 47"
  shows "snd (splitext (d @ n)) = snd (splitext n)"
proof -
  have sn: "rfind n 47 = - 1" using assms by (simp add: rfind_absent)
  have sd: "rfind (d @ n) 47 = int (length d) - 1" using assms by (rule rfind_dir)
  show ?thesis
  proof (cases "46 \<in> set n")
    case False
    then have "rfind (d @ n) 46 = rfind d 46" by (simp add: rfind_append_absent)
    then have "rfind (d @ n) 46 \<le> int (length d) - 1" using rfind_less [of d 46] by simp
    with sd have "splitext (d @ n) = (d @ n, [])" by (simp add: splitext_def Let_def)
    with False show ?thesis by (simp add: splitext_no_dot)
  next
    case True
    then obtain a x where n: "n = a @ 46 # x" "46 \<notin> set x" by (meson split_list_last)
    have dn: "rfind (d @ n) 46 = int (length d) + int (length a)"
      using rfind_last_occurrence [of 46 x "d @ a"] n by simp
    have t: "take (nat (rfind (d @ n) 46 - (rfind (d @ n) 47 + 1))) (drop (nat (rfind (d @ n) 47 + 1)) (d @ n)) = a"
      unfolding dn sd using n by simp
    have dr: "drop (nat (rfind (d @ n) 46)) (d @ n) = 46 # x"
      unfolding dn using n by (simp add: nat_add_distrib)
    have gt: "rfind (d @ n) 46 > rfind (d @ n) 47" unfolding dn sd by simp
    have l: "snd (splitext (d @ n)) = (if list_ex (\<lambda>c. c \<noteq> 46) a then 46 # x else [])"
      unfolding splitext_def Let_def t dr using gt by simp
    have "47 \<notin> set a" "47 \<notin> set x" using assms(1) n by auto
    from splitext_name [OF this n(2)] l n show ?thesis by simp
  qed
qed

lemma lower_from_ascii:
  assumes "\<forall>pre c post. 128 \<le> c \<longrightarrow> (\<exists>d \<in> set (u_lower e pre c post). d \<notin> L)"
    and "set (lower_from e pre x) \<subseteq> L"
  shows "(\<forall>c \<in> set x. c < 128) \<and> lower_from e pre x = map ascii_lower x"
  using assms(2)
proof (induction x arbitrary: pre)
  case Nil
  show ?case by simp
next
  case (Cons c cs)
  have c: "c < 128"
  proof (rule ccontr)
    assume "\<not> c < 128"
    then have "128 \<le> c" by simp
    with assms(1) obtain d where "d \<in> set (u_lower e pre c cs)" "d \<notin> L" by blast
    with Cons.prems \<open>\<not> c < 128\<close> show False by auto
  qed
  with Cons.prems have "set (lower_from e (c # pre) cs) \<subseteq> L" by simp
  from Cons.IH [OF this] c show ?case by simp
qed

lemma allowed_extension_letters:
  assumes "map ascii_lower x \<in> set ALLOWED_EXTENSIONS"
  shows "x \<noteq> [] \<and> (\<forall>c \<in> set x. ascii_letter c)"
proof
  from assms show "x \<noteq> []" by (auto simp: ALLOWED_EXTENSIONS_def S_def)
  have "set (map ascii_lower x) \<subseteq> {112, 110, 103, 106, 101, 105, 102, 119, 98}"
    using assms by (auto simp: ALLOWED_EXTENSIONS_def S_def)
  then have "\<forall>c \<in> set x. ascii_lower c \<in> {112, 110, 103, 106, 101, 105, 102, 119, 98}" by auto
  moreover have "ascii_letter c" if "ascii_lower c \<in> {112, 110, 103, 106, 101, 105, 102, 119, 98}" for c
    using that by (auto simp: ascii_lower_def ascii_letter_def split: if_splits)
  ultimately show "\<forall>c \<in> set x. ascii_letter c" by blast
qed

lemma split_acc_word:
  "\<forall>c \<in> set t. \<not> py_isspace e c \<Longrightarrow>
   split_acc e cur t = (if cur = [] \<and> t = [] then [] else [rev cur @ t])"
  by (induction t arbitrary: cur) auto

lemma split_acc_tail:
  assumes "t \<noteq> []" "\<forall>c \<in> set t. \<not> py_isspace e c"
  shows "\<exists>ws w. split_acc e cur (u @ t) = ws @ [w @ t]"
proof (induction u arbitrary: cur)
  case Nil
  show ?case using assms by (simp add: split_acc_word)
next
  case (Cons c u)
  show ?case
  proof (cases "py_isspace e c")
    case False
    with Cons.IH [of "c # cur"] show ?thesis by simp
  next
    case True
    from Cons.IH [of "[]"] obtain ws w where "split_acc e [] (u @ t) = ws @ [w @ t]" by blast
    with True show ?thesis
      by (cases "cur = []") (auto intro: exI [of _ "rev cur # ws"])
  qed
qed

lemma py_join_tail: "\<exists>v. py_join sep (ws @ [w @ t]) = v @ t"
proof (induction ws)
  case Nil
  show ?case by simp
next
  case (Cons a ws)
  then obtain v where v: "py_join sep (ws @ [w @ t]) = v @ t" by blast
  obtain b bs where "ws @ [w @ t] = b # bs" by (cases "ws @ [w @ t]") auto
  then have "py_join sep (a # ws @ [w @ t]) = a @ sep @ py_join sep (ws @ [w @ t])" by simp
  with v show ?case by simp
qed

lemma strip_tail_kept: "w \<noteq> [] \<Longrightarrow> \<not> P (last w) \<Longrightarrow> rev (dropWhile P (rev w)) = w"
  by (cases w rule: rev_cases) auto

lemma ascii_fold_append: "ascii_fold e (a @ b) = ascii_fold e a @ ascii_fold e b"
  by (simp add: ascii_fold_def)

lemma ascii_fold_ascii: "\<forall>c \<in> set x. c < 128 \<Longrightarrow> ascii_fold e x = x"
  by (induction x) (auto simp: ascii_fold_def)

lemma letter_facts:
  "ascii_letter c \<Longrightarrow> c < 128 \<and> c \<noteq> 47 \<and> c \<noteq> 46 \<and> c \<noteq> 95 \<and> filename_char c \<and> \<not> py_isspace e c"
  by (auto simp: ascii_letter_def filename_char_def py_isspace_def)

lemma secure_filename_keeps_extension:
  assumes x: "x \<noteq> []" "\<forall>c \<in> set x. ascii_letter c"
  shows "secure_filename e (a @ 46 # x) = x \<or>
         (\<exists>v. v \<noteq> [] \<and> hd v \<noteq> 46 \<and> 47 \<notin> set v \<and> secure_filename e (a @ 46 # x) = v @ 46 # x)"
proof -
  let ?P = "\<lambda>c::nat. c = 46 \<or> c = 95"
  let ?g = "\<lambda>c::nat. if c = 47 then 32 else c"
  have lx: "\<forall>c \<in> set x. c < 128 \<and> c \<noteq> 47 \<and> c \<noteq> 46 \<and> c \<noteq> 95 \<and> filename_char c \<and> \<not> py_isspace e c"
    using x(2) letter_facts by blast
  have f1: "ascii_fold e (a @ 46 # x) = ascii_fold e a @ 46 # x"
    using ascii_fold_ascii [of "46 # x" e] lx by (simp add: ascii_fold_append)
  have mx: "map ?g x = x" using lx by (simp add: map_idI)
  have f2: "map ?g (ascii_fold e (a @ 46 # x)) = map ?g (ascii_fold e a) @ 46 # x"
    unfolding f1 using mx by simp
  have t: "46 # x \<noteq> []" "\<forall>c \<in> set (46 # x). \<not> py_isspace e c"
    using lx by (auto simp: py_isspace_def)
  from split_acc_tail [OF t, of "[]" "map ?g (ascii_fold e a)"]
  obtain ws w where "py_split e (map ?g (ascii_fold e a) @ 46 # x) = ws @ [w @ 46 # x]"
    by (auto simp: py_split_def)
  with py_join_tail [of "[95]" ws w "46 # x"]
  obtain v where f3: "py_join [95] (py_split e (map ?g (ascii_fold e (a @ 46 # x)))) = v @ 46 # x"
    unfolding f2 by auto
  let ?v = "filter filename_char v"
  have fx: "filter filename_char x = x" using lx by (simp add: filter_id_conv)
  have f4: "filter filename_char (v @ 46 # x) = ?v @ 46 # x"
    using fx by (simp add: filename_char_def)
  have s: "secure_filename e (a @ 46 # x) = strip_chars ?P (?v @ 46 # x)"
    by (simp only: secure_filename_def Let_def f3 f4)
  have lastx: "\<not> ?P (last x)" using x(1) lx last_in_set by blast
  have hdx: "\<not> ?P (hd x)" using x(1) lx hd_in_set by blast
  show ?thesis
  proof (cases "\<forall>c \<in> set ?v. ?P c")
    case True
    have "dropWhile ?P (?v @ 46 # x) = dropWhile ?P (46 # x)"
      by (rule dropWhile_append2) (use True in blast)
    also have "\<dots> = x" using hdx x(1) by (cases x) auto
    finally have "strip_chars ?P (?v @ 46 # x) = rev (dropWhile ?P (rev x))"
      by (simp add: strip_chars_def)
    moreover have "rev (dropWhile ?P (rev x)) = x"
      by (rule strip_tail_kept) (use x(1) lastx in auto)
    ultimately show ?thesis using s by simp
  next
    case False
    let ?u = "dropWhile ?P ?v"
    from False obtain c0 where c0: "c0 \<in> set ?v" "\<not> ?P c0" by blast
    then have u: "?u \<noteq> []" unfolding dropWhile_eq_Nil_conv by blast
    then have hu: "\<not> ?P (hd ?u)" by (rule hd_dropWhile)
    have "set ?u \<subseteq> set ?v" by (rule set_dropWhileD [THEN subsetI])
    then have su: "47 \<notin> set ?u" by (auto simp: filename_char_def)
    have "dropWhile ?P (?v @ 46 # x) = ?u @ 46 # x"
      using c0 by (rule dropWhile_append1)
    then have "strip_chars ?P (?v @ 46 # x) = rev (dropWhile ?P (rev (?u @ 46 # x)))"
      by (simp add: strip_chars_def)
    moreover have "rev (dropWhile ?P (rev (?u @ 46 # x))) = ?u @ 46 # x"
      by (rule strip_tail_kept) (use x(1) lastx in auto)
    ultimately have "secure_filename e (a @ 46 # x) = ?u @ 46 # x" using s by simp
    with u hu su show ?thesis by blast
  qed
qed

lemma generated_extension:
  assumes x: "x \<noteq> []" "\<forall>c \<in> set x. ascii_letter c"
  shows "snd (splitext (secure_filename e (a @ 46 # x))) = [] \<or>
         snd (splitext (secure_filename e (a @ 46 # x))) = 46 # x"
proof -
  have nx: "46 \<notin> set x" "47 \<notin> set x" using x(2) letter_facts by blast+
  from secure_filename_keeps_extension [OF x, of e a]
  consider "secure_filename e (a @ 46 # x) = x"
    | v where "v \<noteq> []" "hd v \<noteq> 46" "47 \<notin> set v" "secure_filename e (a @ 46 # x) = v @ 46 # x"
    by blast
  then show ?thesis
  proof cases
    case 1
    with nx show ?thesis by (simp add: splitext_no_dot)
  next
    case 2
    from 2(1,2) have "list_ex (\<lambda>c. c \<noteq> 46) v" by (cases v) auto
    with splitext_name [OF 2(3) nx(2) nx(1)] 2(4) show ?thesis by simp
  qed
qed

lemma process_success_inv:
  assumes ok: "fst (process_uploaded_image e (Some f) base md ts fs) = Inr (Some name, None)"
  shows "passes_gate e f \<and> name = generated_filename e (filename_original f) \<and>
         (\<exists>img fs1 fs2. verify_image e (stream f) = Some img \<and>
            save_image e img (path_join base (generated_filename e (filename_original f))) fs1 = (None, fs2))"
proof -
  have g: "passes_gate e f"
  proof (rule ccontr)
    assume "\<not> passes_gate e f"
    from process_gate_rejected [OF this, of base md ts fs] ok show False by simp
  qed
  obtain img where v: "verify_image e (stream f) = Some img"
  proof (cases "verify_image e (stream f)")
    case None
    from process_invalid [OF g None, of base md ts fs] ok show ?thesis by simp
  next
    case (Some img) then show ?thesis by (rule that)
  qed
  have d: "\<not> (width img > fst md \<or> height img > snd md)"
  proof
    assume "width img > fst md \<or> height img > snd md"
    from process_too_large [OF g v this, of base ts fs] ok show False by simp
  qed
  obtain r1 fs1 where mk: "os_makedirs e base fs = (r1, fs1)" by (cases "os_makedirs e base fs")
  have n1: "r1 = None"
  proof (cases r1)
    case (Some y)
    with process_mkdir_fails [OF g v d, of base fs y fs1 ts] mk ok show ?thesis by simp
  qed simp
  obtain r2 fs2 where sv:
    "save_image e img (path_join base (generated_filename e (filename_original f))) fs1 = (r2, fs2)"
    by (cases "save_image e img (path_join base (generated_filename e (filename_original f))) fs1")
  have n2: "r2 = None"
  proof (cases r2)
    case (Some y)
    with process_save_fails [OF g v d, of base fs fs1 y fs2 ts] mk n1 sv ok show ?thesis by simp
  qed simp
  obtain r3 fs3 where th:
    "create_thumbnail e img (path_join base (S ''thumbs'')) (generated_filename e (filename_original f)) ts fs2 = (r3, fs3)"
    by (cases "create_thumbnail e img (path_join base (S ''thumbs'')) (generated_filename e (filename_original f)) ts fs2")
  from process_saved [OF g v d, of base fs fs1 fs2 ts r3 fs3] mk n1 sv n2 th ok
  have "name = generated_filename e (filename_original f)" by simp
  with g v sv n2 show ?thesis by blast
qed

lemma rsplit_of_append: "46 \<notin> set x \<Longrightarrow> rsplit_dot_last (a @ 46 # x) = x"
proof -
  assume "46 \<notin> set x"
  then have "takeWhile (\<lambda>c. c \<noteq> 46) (rev x @ 46 # rev a) = rev x"
    by (auto simp: takeWhile_tail)
  then show ?thesis by (simp add: rsplit_dot_last_def)
qed

lemma path_join_dir:
  "n \<noteq> [] \<Longrightarrow> hd n \<noteq> 47 \<Longrightarrow> \<exists>d. path_join base n = d @ n \<and> (d = [] \<or> last d = 47)"
  by (auto simp: path_join_def intro: exI [of _ "base @ [47]"])

lemma uuid_hex_chars: "46 \<notin> set (uuid_hex w) \<and> 47 \<notin> set (uuid_hex w)"
  by (auto simp: uuid_hex_def hexdigit_def)

lemma bare_extension_name_is_refused:
  "secure_filename sample_env (S ''.png'') = S ''png'' \<and>
   generated_filename sample_env (S ''.png'') = S ''0123456789abcdef0123456789abcdef'' \<and>
   fst (process_uploaded_image sample_env (Some (sample_upload ''.png'' ''image/png'' [10, 20, 0]))
          (S ''static/uploads'') DEFAULT_MAX_DIMENSIONS DEFAULT_THUMBNAIL_SIZE empty_fs)
     = Inr (None, Some MSG_INVALID)"
proof -
  let ?e = sample_env
  let ?f = "sample_upload ''.png'' ''image/png'' [10, 20, 0]"
  let ?img = "\<lparr>width = 10, height = 20, mode = ''RGB'', pix = Lazy [10, 20, 0]\<rparr>"
  let ?base = "S ''static/uploads''"
  let ?path = "S ''static/uploads/0123456789abcdef0123456789abcdef''"
  let ?fs1 = "snd (os_makedirs ?e ?base empty_fs)"
  let ?fs2 = "snd (save_image ?e ?img ?path ?fs1)"
  have a: "secure_filename ?e (S ''.png'') = S ''png''" by code_simp
  have b: "generated_filename ?e (S ''.png'') = S ''0123456789abcdef0123456789abcdef''" by code_simp
  have g: "passes_gate ?e ?f" by code_simp
  have v: "verify_image ?e (stream ?f) = Some ?img" by code_simp
  have d: "\<not> (width ?img > fst DEFAULT_MAX_DIMENSIONS \<or> height ?img > snd DEFAULT_MAX_DIMENSIONS)"
    by code_simp
  have p: "path_join ?base (generated_filename ?e (filename_original ?f)) = ?path" by code_simp
  have "fst (os_makedirs ?e ?base empty_fs) = None" by code_simp
  then have m: "os_makedirs ?e ?base empty_fs = (None, ?fs1)" by (simp add: prod_eq_iff)
  have "fst (save_image ?e ?img ?path ?fs1) = Some ValueError" by code_simp
  then have s: "save_image ?e ?img (path_join ?base (generated_filename ?e (filename_original ?f))) ?fs1
      = (Some ValueError, ?fs2)" by (simp add: prod_eq_iff p)
  from process_save_fails [OF g v d m s] a b show ?thesis by simp
qed

text \<open>
  C7: the name returned by a successful upload is the 32 hexadecimal digits of the random
  token followed by the extension of the sanitised original name, and that extension is the
  dot and the extension the gate accepted, in the letters the client sent: the stored name
  passes \<open>allowed_file\<close> itself. Two facts about the libraries are assumed: Pillow registers
  no empty extension, and the lower-casing of a non-ASCII code point always contains a code
  point that is no letter of an allowed extension. (A name whose stem sanitises to nothing, such as \<open>.png\<close>, would get no
  extension; Pillow refuses to save under such a name, so that upload fails.)
\<close>

theorem stored_name_carries_allowed_extension:
  assumes H1: "[] \<notin> set (pil_extensions e)"
    and H2: "\<forall>pre c post. 128 \<le> c \<longrightarrow>
               (\<exists>d \<in> set (u_lower e pre c post). d \<notin> set (concat ALLOWED_EXTENSIONS))"
    and ok: "fst (process_uploaded_image e (Some f) base md ts fs) = Inr (Some name, None)"
  shows "name = uuid_hex (uuid4 e) @ snd (splitext (secure_filename e (filename_original f))) \<and>
         snd (splitext (secure_filename e (filename_original f))) =
           46 # rsplit_dot_last (filename_original f) \<and>
         py_lower e (rsplit_dot_last (filename_original f)) \<in> set ALLOWED_EXTENSIONS \<and>
         allowed_file e name \<and> length (uuid_hex (uuid4 e)) = 32"
proof -
  let ?orig = "filename_original f"
  let ?x = "rsplit_dot_last ?orig"
  let ?ext = "snd (splitext (secure_filename e ?orig))"
  let ?hex = "uuid_hex (uuid4 e)"
  from process_success_inv [OF ok] obtain img fs1 fs2 where
    g: "passes_gate e f" and n: "name = generated_filename e ?orig" and
    sv: "save_image e img (path_join base (generated_filename e ?orig)) fs1 = (None, fs2)"
    by blast
  have gn: "generated_filename e ?orig = ?hex @ ?ext" by (simp add: generated_filename_def Let_def)
  from g have al: "allowed_file e ?orig" by (simp add: passes_gate_def)
  then have dot: "46 \<in> set ?orig" and lo: "py_lower e ?x \<in> set ALLOWED_EXTENSIONS"
    by (auto simp: allowed_file_def split: if_splits)
  from dot obtain a x where ax: "?orig = a @ 46 # x" "46 \<notin> set x" by (meson split_list_last)
  then have xx: "?x = x" by (simp add: rsplit_of_append)
  from lo have "set (lower_from e [] ?x) \<subseteq> set (concat ALLOWED_EXTENSIONS)"
    unfolding py_lower_def by auto
  from lower_from_ascii [OF H2 this] lo have "map ascii_lower ?x \<in> set ALLOWED_EXTENSIONS"
    by (simp add: py_lower_def)
  from allowed_extension_letters [OF this] xx have x: "x \<noteq> []" "\<forall>c \<in> set x. ascii_letter c" by simp_all
  have ext_cases: "?ext = [] \<or> ?ext = 46 # x"
    using generated_extension [OF x, of e a] ax(1) by simp
  have hx: "46 \<notin> set ?hex" "47 \<notin> set ?hex" using uuid_hex_chars by blast+
  have ext: "?ext = 46 # x"
  proof (rule ccontr)
    assume "?ext \<noteq> 46 # x"
    with ext_cases have e0: "?ext = []" by blast
    have ne: "?hex \<noteq> []" "hd ?hex \<noteq> 47"
      using generated_filename_hd [of e ?orig] gn e0 by simp_all
    from path_join_dir [OF ne, of base] obtain d where
      d: "path_join base ?hex = d @ ?hex" "d = [] \<or> last d = 47" by blast
    have "snd (splitext (d @ ?hex)) = snd (splitext ?hex)" using hx(2) d(2) by (rule splitext_dir)
    then have "snd (splitext (path_join base ?hex)) = []" using d(1) hx(1) by (simp add: splitext_no_dot)
    with sv gn e0 have "py_lower e [] \<in> set (pil_extensions e)"
      by (auto simp: save_image_def Image_save_def split: if_splits)
    with H1 show False by (simp add: py_lower_def)
  qed
  have nm: "name = ?hex @ 46 # x" using n gn ext by simp
  have "allowed_file e (?hex @ 46 # x)"
    using lo xx ax(2) by (simp add: allowed_file_def rsplit_of_append)
  with nm gn n ext xx lo uuid_hex_length [of "uuid4 e"] show ?thesis by simp
qed


theorem stored_name_carries_allowed_extension_witness:
  "[] \<notin> set (pil_extensions sample_env) \<and>
   fst (process_uploaded_image sample_env (Some (sample_upload ''my photo.PNG'' ''image/png'' [10, 20, 0]))
          (S ''static/uploads'') DEFAULT_MAX_DIMENSIONS DEFAULT_THUMBNAIL_SIZE empty_fs)
     = Inr (Some (S ''0123456789abcdef0123456789abcdef.PNG''), None) \<and>
   allowed_file sample_env (S ''0123456789abcdef0123456789abcdef.PNG'') \<and>
   snd (splitext (secure_filename sample_env
          (filename_original (sample_upload ''my photo.PNG'' ''image/png'' [10, 20, 0])))) =
     46 # rsplit_dot_last (filename_original (sample_upload ''my photo.PNG'' ''image/png'' [10, 20, 0]))"
proof -
  let ?f = "sample_upload ''my photo.PNG'' ''image/png'' [10, 20, 0]"
  have h1: "[] \<notin> set (pil_extensions sample_env)" by (simp add: sample_env_def S_def)
  have h2: "\<forall>pre c post. 128 \<le> c \<longrightarrow>
      (\<exists>d \<in> set (u_lower sample_env pre c post). d \<notin> set (concat ALLOWED_EXTENSIONS))"
    by (auto simp: sample_env_def ALLOWED_EXTENSIONS_def S_def)
  have ok: "fst (process_uploaded_image sample_env (Some ?f)
          (S ''static/uploads'') DEFAULT_MAX_DIMENSIONS DEFAULT_THUMBNAIL_SIZE empty_fs)
     = Inr (Some (S ''0123456789abcdef0123456789abcdef.PNG''), None)" by code_simp
  from stored_name_carries_allowed_extension [OF h1 h2 ok] h1 ok show ?thesis by blast
qed

end
